theory Spec2Isabelle
  imports Main "HOL-Library.Word"
begin

section \<open>The hardware interface of the Ovis arm (ovis\_control.cpp)\<close>

text \<open>
  A shallow embedding of \<^verbatim>\<open>ovis_control::OvisHWInterface\<close>. The members of the
  object and the free store of \<^verbatim>\<open>kinova::KinovaComm\<close> objects are one record that
  every callback takes and returns. What a callback can do besides returning is a
  constructor of \<open>outcome\<close>: an exception that leaves the callback, or undefined
  behaviour of C++ (a null or dangling pointer or reference used, an index past the
  end). What the log macros (\<^verbatim>\<open>RCLCPP_INFO\<close> and its siblings) print is not modelled;
  the logger they read is, where it is the one that \<^verbatim>\<open>logger()\<close> returns.
\<close>

subsection \<open>Values\<close>

text \<open>
  A \<^verbatim>\<open>double\<close> and a \<^verbatim>\<open>float\<close> are their IEEE 754 bit patterns. No arithmetic
  is done on them by this code: they are stored, copied and converted. The two
  conversions \<^verbatim>\<open>(float)x\<close> and \<^verbatim>\<open>(double)y\<close> are parameters of the functions that
  use them, so every theorem about those holds for whatever the compiler's
  conversions are. The conversions of IEEE 754 themselves are defined further down,
  for the one property that is about how they round.
\<close>

type_synonym double = "64 word"
type_synonym float = "32 word"

text \<open>\<^verbatim>\<open>std::numeric_limits<double>::quiet_NaN()\<close>\<close>

definition quiet_NaN :: double where
  "quiet_NaN = 0x7FF8000000000000"

text \<open>A NaN has all eleven exponent bits set and a fraction that is not zero.\<close>

definition isnan :: "double \<Rightarrow> bool" where
  "isnan d = (take_bit 11 (drop_bit 52 d) = 0x7FF \<and> take_bit 52 d \<noteq> 0)"

datatype CallbackReturn = SUCCESS | FAILURE | ERROR

datatype return_type = OK | RT_ERROR

text \<open>\<^verbatim>\<open>kinova::KinovaCommException\<close>, by its message.\<close>

type_synonym KinovaCommException = string

datatype exn = out_of_range

datatype 'a outcome = Returns 'a | Throws exn | Undefined

subsection \<open>Sequencing\<close>

primrec and_then :: "'a outcome \<Rightarrow> ('a \<Rightarrow> 'b outcome) \<Rightarrow> 'b outcome" where
  "and_then (Returns x) f = f x"
| "and_then (Throws e) f = Throws e"
| "and_then Undefined f = Undefined"

subsection \<open>Loggers\<close>

text \<open>
  A log macro reads the logger it is given. Written as the argument,
  \<^verbatim>\<open>rclcpp::get_logger(..)\<close> is a temporary that lives until the statement ends: such a
  macro returns and is left out of the model. The member function
  \<^verbatim>\<open>const rclcpp::Logger & OvisHWInterface::logger() const { return rclcpp::get_logger(get_name()); }\<close>
  returns a reference to the temporary that \<^verbatim>\<open>rclcpp::get_logger\<close> makes inside it,
  and that temporary is destroyed when \<^verbatim>\<open>logger()\<close> returns: the reference dangles,
  and a macro that reads it has undefined behaviour.
\<close>

datatype logger_ref = Alive | Dangling

definition logger :: logger_ref where
  "logger = Dangling"

primrec RCLCPP_LOG :: "logger_ref \<Rightarrow> unit outcome" where
  "RCLCPP_LOG Alive = Returns ()"
| "RCLCPP_LOG Dangling = Undefined"

subsection \<open>The object\<close>

text \<open>
  \<^verbatim>\<open>hardware_interface::HardwareInfo\<close> and \<^verbatim>\<open>ComponentInfo\<close>, with the fields the code
  reads: \<^verbatim>\<open>info_.joints.size()\<close> and \<^verbatim>\<open>info_.joints[i].name\<close>.
\<close>

record component_info =
  name :: string

record hardware_info =
  joints :: "component_info list"

text \<open>
  The members \<^verbatim>\<open>info_\<close>, \<^verbatim>\<open>hw_states_\<close>, \<^verbatim>\<open>hw_commands_\<close> and the owning pointer
  \<^verbatim>\<open>comm\<close> (\<open>None\<close> is \<^verbatim>\<open>nullptr\<close>, \<open>Some p\<close> the address \<open>p\<close>), and the free
  store: the addresses of the \<^verbatim>\<open>KinovaComm\<close> objects that \<^verbatim>\<open>new\<close> has made and
  \<^verbatim>\<open>delete\<close> has not destroyed. (A record field cannot end in an underscore, so the
  members are \<open>info\<close>, \<open>hw_states\<close> and \<open>hw_commands\<close> here.)
\<close>

record ovis =
  info :: hardware_info
  hw_states :: "double list"
  hw_commands :: "double list"
  comm :: "nat option"
  kinova_heap :: "nat list"

text \<open>\<^verbatim>\<open>std::vector::resize(n, v)\<close>: the first \<open>n\<close> elements stay, new ones are \<open>v\<close>.\<close>

definition resize :: "'a list \<Rightarrow> nat \<Rightarrow> 'a \<Rightarrow> 'a list" where
  "resize xs n v = take n xs @ replicate (n - length xs) v"

subsection \<open>on\_init and on\_configure\<close>

text \<open>
  Modelled from the spec: \<^verbatim>\<open>hardware_interface::SystemInterface::on_init\<close> is the
  framework's, not this repository's. The spec treats it as a black box that
  validates the joint set and returns success or failure: its result is the
  parameter \<open>base\<close>. It keeps the joint set in the member \<^verbatim>\<open>info_\<close>, which is what
  \<^verbatim>\<open>on_init\<close> reads after the call.
\<close>

definition SystemInterface_on_init ::
  "CallbackReturn \<Rightarrow> hardware_info \<Rightarrow> ovis \<Rightarrow> CallbackReturn \<times> ovis" where
  "SystemInterface_on_init base hwinfo s = (base, s\<lparr>info := hwinfo\<rparr>)"

definition on_init :: "CallbackReturn \<Rightarrow> hardware_info \<Rightarrow> ovis \<Rightarrow> CallbackReturn \<times> ovis" where
  "on_init base hwinfo s =
     (case SystemInterface_on_init base hwinfo s of
        (r, s1) \<Rightarrow>
          if r \<noteq> SUCCESS then (ERROR, s1)
          else
            let s2 = s1\<lparr>hw_states :=
                         resize (hw_states s1) (length (joints (info s1))) quiet_NaN\<rparr>;
                s3 = s2\<lparr>hw_commands :=
                         resize (hw_commands s2) (length (joints (info s2))) quiet_NaN\<rparr>
            in (SUCCESS, s3))"

definition on_configure :: "ovis \<Rightarrow> CallbackReturn \<times> ovis" where
  "on_configure s = (SUCCESS, s)"

subsection \<open>The native angle record\<close>

text \<open>
  Modelled from the spec: \<^verbatim>\<open>kinova::KinovaAngles\<close> is declared by the vendor
  library, outside \<^verbatim>\<open>ovis_control.cpp\<close>. It is the spec's Native Angle Record: six slots, one per actuator, addressed by
  name (\<^verbatim>\<open>angles.Actuator1\<close>) and by position (\<^verbatim>\<open>angles[i]\<close>). A position past the
  sixth slot is outside its contract: \<open>None\<close> here, undefined behaviour in the
  callbacks.
\<close>

record KinovaAngles =
  Actuator1 :: float
  Actuator2 :: float
  Actuator3 :: float
  Actuator4 :: float
  Actuator5 :: float
  Actuator6 :: float

definition angles_at :: "KinovaAngles \<Rightarrow> nat \<Rightarrow> float option" where
  "angles_at a i =
     (if i = 0 then Some (Actuator1 a) else if i = 1 then Some (Actuator2 a)
      else if i = 2 then Some (Actuator3 a) else if i = 3 then Some (Actuator4 a)
      else if i = 4 then Some (Actuator5 a) else if i = 5 then Some (Actuator6 a)
      else None)"

definition angles_put :: "KinovaAngles \<Rightarrow> nat \<Rightarrow> float \<Rightarrow> KinovaAngles option" where
  "angles_put a i v =
     (if i = 0 then Some (a\<lparr>Actuator1 := v\<rparr>) else if i = 1 then Some (a\<lparr>Actuator2 := v\<rparr>)
      else if i = 2 then Some (a\<lparr>Actuator3 := v\<rparr>) else if i = 3 then Some (a\<lparr>Actuator4 := v\<rparr>)
      else if i = 4 then Some (a\<lparr>Actuator5 := v\<rparr>) else if i = 5 then Some (a\<lparr>Actuator6 := v\<rparr>)
      else None)"

text \<open>The six slots in slot order.\<close>

definition angles_list :: "KinovaAngles \<Rightarrow> float list" where
  "angles_list a =
     [Actuator1 a, Actuator2 a, Actuator3 a, Actuator4 a, Actuator5 a, Actuator6 a]"

subsection \<open>The session pointer\<close>

text \<open>
  \<^verbatim>\<open>comm->...\<close> needs a pointer to an object that exists: \<open>session s\<close> is that
  object's address, and \<open>None\<close> when \<^verbatim>\<open>comm\<close> is null or dangling.
\<close>

definition session :: "ovis \<Rightarrow> nat option" where
  "session s =
     (case comm s of
        None \<Rightarrow> None
      | Some p \<Rightarrow> if p \<in> set (kinova_heap s) then Some p else None)"

text \<open>The address \<^verbatim>\<open>new\<close> returns: one that no existing object has.\<close>

definition fresh :: "nat list \<Rightarrow> nat" where
  "fresh h = Suc (fold max h 0)"

text \<open>\<^verbatim>\<open>delete p\<close> for a non-null \<open>p\<close>: undefined unless \<open>p\<close> points to an object.\<close>

definition delete_comm :: "nat \<Rightarrow> ovis \<Rightarrow> ovis outcome" where
  "delete_comm p s =
     (if p \<in> set (kinova_heap s)
      then Returns (s\<lparr>kinova_heap := removeAll p (kinova_heap s)\<rparr>)
      else Undefined)"

subsection \<open>on\_activate, on\_deactivate and the destructor\<close>

text \<open>
  \<^verbatim>\<open>on_activate\<close>:
  \<^verbatim>\<open>try { RCLCPP_INFO(logger(), "Activating"); comm = new kinova::KinovaComm(mApiMutex, this->info_); RCLCPP_INFO(logger(), "Activated"); }\<close>
  \<^verbatim>\<open>catch (const kinova::KinovaCommException& e) { RCLCPP_ERROR(logger(), e.what()); return CallbackReturn::ERROR; }\<close>
  \<^verbatim>\<open>return CallbackReturn::SUCCESS;\<close>
  The constructor is the vendor library's; what it does is the parameter \<open>opened\<close>:
  \<open>Inr ()\<close> when the session is established, \<open>Inl e\<close> when it throws
  \<^verbatim>\<open>KinovaCommException\<close>. When it throws, nothing is assigned to \<^verbatim>\<open>comm\<close> and no
  object is left on the free store. The pointer that \<^verbatim>\<open>comm\<close> held before the
  assignment is overwritten, not deleted. All three log macros read \<^verbatim>\<open>logger()\<close>, the
  first of them before anything else is done.
\<close>

definition on_activate ::
  "KinovaCommException + unit \<Rightarrow> ovis \<Rightarrow> (CallbackReturn \<times> ovis) outcome" where
  "on_activate opened s =
     and_then (RCLCPP_LOG logger)
       (\<lambda>_. case opened of
              Inl e \<Rightarrow> and_then (RCLCPP_LOG logger) (\<lambda>_. Returns (ERROR, s))
            | Inr u \<Rightarrow>
                let p = fresh (kinova_heap s);
                    s1 = s\<lparr>comm := Some p, kinova_heap := p # kinova_heap s\<rparr>
                in and_then (RCLCPP_LOG logger) (\<lambda>_. Returns (SUCCESS, s1)))"

text \<open>\<^verbatim>\<open>if (comm != nullptr) delete comm; comm = nullptr; return SUCCESS;\<close>\<close>

definition on_deactivate :: "ovis \<Rightarrow> (CallbackReturn \<times> ovis) outcome" where
  "on_deactivate s =
     and_then (case comm s of None \<Rightarrow> Returns s | Some p \<Rightarrow> delete_comm p s)
       (\<lambda>s1. Returns (SUCCESS, s1\<lparr>comm := None\<rparr>))"

text \<open>\<^verbatim>\<open>~OvisHWInterface()\<close>: \<^verbatim>\<open>if (comm != nullptr) delete comm; comm = nullptr;\<close>\<close>

definition destructor :: "ovis \<Rightarrow> ovis outcome" where
  "destructor s =
     and_then (case comm s of None \<Rightarrow> Returns s | Some p \<Rightarrow> delete_comm p s)
       (\<lambda>s1. Returns (s1\<lparr>comm := None\<rparr>))"

subsection \<open>read and write\<close>

text \<open>
  The loop of \<^verbatim>\<open>read\<close>, from index \<open>i\<close>:
  \<^verbatim>\<open>for (size_t i = 0; i < info_.joints.size(); ++i) hw_states_.at(i) = (double)angles[i];\<close>
  The right-hand side is evaluated first; \<^verbatim>\<open>at\<close> throws \<^verbatim>\<open>std::out_of_range\<close> past the
  end of the vector, and nothing catches it.
\<close>

function read_loop ::
  "(float \<Rightarrow> double) \<Rightarrow> KinovaAngles \<Rightarrow> nat \<Rightarrow> nat \<Rightarrow> double list \<Rightarrow> double list outcome" where
  "read_loop cast_double angles n i states =
     (if i < n then
        (case angles_at angles i of
           None \<Rightarrow> Undefined
         | Some v \<Rightarrow>
             if i < length states
             then read_loop cast_double angles n (Suc i) (states[i := cast_double v])
             else Throws out_of_range)
      else Returns states)"
  by pat_completeness auto
termination
  by (relation "measure (\<lambda>(c, a, n, i, st). n - i)") auto

declare read_loop.simps [simp del]

text \<open>
  \<^verbatim>\<open>read\<close>. \<open>got\<close> is what \<^verbatim>\<open>comm->getJointAngles(angles)\<close> does in this cycle: it
  fills \<^verbatim>\<open>angles\<close> (\<open>Inr\<close>) or throws \<^verbatim>\<open>KinovaCommException\<close> (\<open>Inl\<close>), which the
  \<^verbatim>\<open>catch\<close> turns into \<^verbatim>\<open>return_type::ERROR\<close>. There is no test of \<^verbatim>\<open>comm\<close> before
  the call. The time and the period are not used.
\<close>

definition read_hw ::
  "(float \<Rightarrow> double) \<Rightarrow> KinovaCommException + KinovaAngles \<Rightarrow> ovis
     \<Rightarrow> (return_type \<times> ovis) outcome" where
  "read_hw cast_double got s =
     (case session s of
        None \<Rightarrow> Undefined
      | Some p \<Rightarrow>
          (case got of
             Inl e \<Rightarrow> Returns (RT_ERROR, s)
           | Inr angles \<Rightarrow>
               and_then
                 (read_loop cast_double angles (length (joints (info s))) 0 (hw_states s))
                 (\<lambda>states. Returns (OK, s\<lparr>hw_states := states\<rparr>))))"

text \<open>
  The loop of \<^verbatim>\<open>write\<close>, from index \<open>i\<close>:
  \<^verbatim>\<open>for (int i = 0; i < info_.joints.size(); ++i) angles[i] = (float)hw_commands_.at(i);\<close>
\<close>

function write_loop ::
  "(double \<Rightarrow> float) \<Rightarrow> double list \<Rightarrow> nat \<Rightarrow> nat \<Rightarrow> KinovaAngles \<Rightarrow> KinovaAngles outcome" where
  "write_loop cast_float commands n i angles =
     (if i < n then
        (if i < length commands
         then (case angles_put angles i (cast_float (commands ! i)) of
                 None \<Rightarrow> Undefined
               | Some angles' \<Rightarrow> write_loop cast_float commands n (Suc i) angles')
         else Throws out_of_range)
      else Returns angles)"
  by pat_completeness auto
termination
  by (relation "measure (\<lambda>(c, cs, n, i, a). n - i)") auto

declare write_loop.simps [simp del]

text \<open>
  \<^verbatim>\<open>write\<close>, after the loop:
  \<^verbatim>\<open>try { RCLCPP_INFO_STREAM(rclcpp::get_logger(get_name()), ..); comm->setJointAngles(angles); RCLCPP_INFO(logger(), "Angles set!"); }\<close>
  \<^verbatim>\<open>catch (const kinova::KinovaCommException& e) { RCLCPP_ERROR(logger(), e.what()); return hardware_interface::return_type::ERROR; }\<close>
  \<^verbatim>\<open>return hardware_interface::return_type::OK;\<close>
  \<open>angles0\<close> is the default-constructed \<^verbatim>\<open>KinovaAngles angles;\<close> and \<open>sent\<close> is what
  \<^verbatim>\<open>comm->setJointAngles(angles)\<close> does in this cycle: it returns (\<open>None\<close>) or throws
  \<^verbatim>\<open>KinovaCommException\<close> (\<open>Some e\<close>). There is no test of \<^verbatim>\<open>comm\<close> before the call,
  and after it, on either path, a log macro reads \<^verbatim>\<open>logger()\<close>. Besides the result
  and the object, the model returns the arguments of the calls of
  \<^verbatim>\<open>setJointAngles\<close> that were made, in order.
\<close>

definition write_hw ::
  "(double \<Rightarrow> float) \<Rightarrow> KinovaAngles \<Rightarrow> KinovaCommException option \<Rightarrow> ovis
     \<Rightarrow> (return_type \<times> ovis \<times> KinovaAngles list) outcome" where
  "write_hw cast_float angles0 sent s =
     and_then
       (write_loop cast_float (hw_commands s) (length (joints (info s))) 0 angles0)
       (\<lambda>angles.
          case session s of
            None \<Rightarrow> Undefined
          | Some p \<Rightarrow>
              (case sent of
                 Some e \<Rightarrow>
                   and_then (RCLCPP_LOG logger) (\<lambda>_. Returns (RT_ERROR, s, [angles]))
               | None \<Rightarrow>
                   and_then (RCLCPP_LOG logger) (\<lambda>_. Returns (OK, s, [angles]))))"

subsection \<open>The exported interfaces\<close>

text \<open>
  A \<^verbatim>\<open>StateInterface\<close> or \<^verbatim>\<open>CommandInterface\<close> is a name, an interface name and a
  pointer to a \<^verbatim>\<open>double\<close>. The pointers made here are \<^verbatim>\<open>&hw_states_[i]\<close> and
  \<^verbatim>\<open>&hw_commands_[i]\<close>: the address of a slot of one of the two buffers.
  \<^verbatim>\<open>operator[]\<close> past the end of a vector is undefined.
\<close>

datatype slot = StateSlot nat | CommandSlot nat

record handle =
  prefix_name :: string
  interface_name :: string
  value_ptr :: slot

text \<open>
  Modelled from the spec: \<^verbatim>\<open>hardware_interface::HW_IF_POSITION\<close> is a constant of the
  framework's headers; the spec gives the tag of the handles as \<open>position\<close>.
\<close>

definition HW_IF_POSITION :: string where
  "HW_IF_POSITION = ''position''"

function export_state_loop :: "ovis \<Rightarrow> nat \<Rightarrow> handle list \<Rightarrow> handle list outcome" where
  "export_state_loop s i state_interfaces =
     (if i < length (joints (info s)) then
        (if i < length (hw_states s)
         then export_state_loop s (Suc i)
                (state_interfaces @
                   [\<lparr>prefix_name = name (joints (info s) ! i),
                     interface_name = HW_IF_POSITION, value_ptr = StateSlot i\<rparr>])
         else Undefined)
      else Returns state_interfaces)"
  by pat_completeness auto
termination
  by (relation "measure (\<lambda>(s, i, hs). length (joints (info s)) - i)") auto

declare export_state_loop.simps [simp del]

definition export_state_interfaces :: "ovis \<Rightarrow> handle list outcome" where
  "export_state_interfaces s = export_state_loop s 0 []"

function export_command_loop :: "ovis \<Rightarrow> nat \<Rightarrow> handle list \<Rightarrow> handle list outcome" where
  "export_command_loop s i command_interfaces =
     (if i < length (joints (info s)) then
        (if i < length (hw_commands s)
         then export_command_loop s (Suc i)
                (command_interfaces @
                   [\<lparr>prefix_name = name (joints (info s) ! i),
                     interface_name = HW_IF_POSITION, value_ptr = CommandSlot i\<rparr>])
         else Undefined)
      else Returns command_interfaces)"
  by pat_completeness auto
termination
  by (relation "measure (\<lambda>(s, i, hs). length (joints (info s)) - i)") auto

declare export_command_loop.simps [simp del]

definition export_command_interfaces :: "ovis \<Rightarrow> handle list outcome" where
  "export_command_interfaces s = export_command_loop s 0 []"

text \<open>
  Modelled from the spec: the class declaration (\<^verbatim>\<open>ovis_control.hpp\<close>) is missing.
  A newly constructed object has empty buffers (a default-constructed
  \<^verbatim>\<open>std::vector\<close>) and, as the spec's Session Handle, a null \<^verbatim>\<open>comm\<close>; no
  \<^verbatim>\<open>KinovaComm\<close> object exists yet.
\<close>

definition OvisHWInterface :: ovis where
  "OvisHWInterface =
     \<lparr>info = \<lparr>joints = []\<rparr>, hw_states = [], hw_commands = [],
      comm = None, kinova_heap = []\<rparr>"

text \<open>The six joints of the arm, as the spec's scenarios name them.\<close>

definition arm_info :: hardware_info where
  "arm_info = \<lparr>joints = [\<lparr>name = ''actuator_1''\<rparr>, \<lparr>name = ''actuator_2''\<rparr>,
     \<lparr>name = ''actuator_3''\<rparr>, \<lparr>name = ''actuator_4''\<rparr>,
     \<lparr>name = ''actuator_5''\<rparr>, \<lparr>name = ''actuator_6''\<rparr>]\<rparr>"

subsection \<open>The lifecycle\<close>

text \<open>
  Modelled from the spec: the lifecycle that calls the callbacks is the owning
  framework's and is missing from \<^verbatim>\<open>ovis_control.cpp\<close>. Its states and transitions are those of
  the spec's Lifecycle State Machine: \<open>initialize\<close> and \<open>configure\<close> from Unconfigured,
  \<open>activate\<close> only when not already active (from Configured or Inactive) and leaving
  the state as it was when it fails, \<open>deactivate\<close> from Configured, Active or
  Inactive, and teardown from every state but the terminal one. The effect of a
  transition on the object is that of the callback of the source.
\<close>

datatype lifecycle = Unconfigured | Configured | Active | Inactive | Finalized

datatype event =
    Initialize CallbackReturn hardware_info
  | Configure
  | Activate "KinovaCommException + unit"
  | Deactivate
  | Destruct

record node =
  state :: lifecycle
  hw :: ovis

fun enabled :: "event \<Rightarrow> lifecycle \<Rightarrow> bool" where
  "enabled (Initialize base hwinfo) l = (l = Unconfigured)"
| "enabled Configure l = (l = Unconfigured)"
| "enabled (Activate opened) l = (l = Configured \<or> l = Inactive)"
| "enabled Deactivate l = (l = Configured \<or> l = Active \<or> l = Inactive)"
| "enabled Destruct l = (l \<noteq> Finalized)"

fun step :: "event \<Rightarrow> node \<Rightarrow> node outcome" where
  "step (Initialize base hwinfo) n =
     (case on_init base hwinfo (hw n) of (r, s) \<Rightarrow> Returns (n\<lparr>hw := s\<rparr>))"
| "step Configure n =
     (case on_configure (hw n) of
        (r, s) \<Rightarrow> Returns \<lparr>state = (if r = SUCCESS then Configured else state n), hw = s\<rparr>)"
| "step (Activate opened) n =
     and_then (on_activate opened (hw n))
       (\<lambda>(r, s). Returns \<lparr>state = (if r = SUCCESS then Active else state n), hw = s\<rparr>)"
| "step Deactivate n =
     and_then (on_deactivate (hw n))
       (\<lambda>(r, s). Returns \<lparr>state = (if state n = Active then Inactive else state n), hw = s\<rparr>)"
| "step Destruct n =
     and_then (destructor (hw n)) (\<lambda>s. Returns \<lparr>state = Finalized, hw = s\<rparr>)"

definition initial :: node where
  "initial = \<lparr>state = Unconfigured, hw = OvisHWInterface\<rparr>"

inductive reachable :: "node \<Rightarrow> bool" where
  start: "reachable initial"
| after: "reachable n \<Longrightarrow> enabled e (state n) \<Longrightarrow> step e n = Returns n' \<Longrightarrow> reachable n'"

text \<open>
  The invariant of the lifecycle: \<^verbatim>\<open>comm\<close> is non-null exactly in the state Active,
  and the \<^verbatim>\<open>KinovaComm\<close> objects that exist are the one \<^verbatim>\<open>comm\<close> points to, if any.
\<close>

definition session_inv :: "node \<Rightarrow> bool" where
  "session_inv n =
     ((comm (hw n) \<noteq> None \<longleftrightarrow> state n = Active)
      \<and> kinova_heap (hw n) = (case comm (hw n) of None \<Rightarrow> [] | Some p \<Rightarrow> [p]))"

subsection \<open>The conversions of IEEE 754\<close>

text \<open>
  The sign, the biased exponent and the fraction of a \<^verbatim>\<open>double\<close> (1, 11 and 52 bits)
  and of a \<^verbatim>\<open>float\<close> (1, 8 and 23 bits).
\<close>

definition d_sign :: "double \<Rightarrow> nat" where
  "d_sign d = unat d div 2 ^ 63"

definition d_exp :: "double \<Rightarrow> nat" where
  "d_exp d = unat d div 2 ^ 52 mod 2 ^ 11"

definition d_frac :: "double \<Rightarrow> nat" where
  "d_frac d = unat d mod 2 ^ 52"

definition f_sign :: "float \<Rightarrow> nat" where
  "f_sign x = unat x div 2 ^ 31"

definition f_exp :: "float \<Rightarrow> nat" where
  "f_exp x = unat x div 2 ^ 23 mod 2 ^ 8"

definition f_frac :: "float \<Rightarrow> nat" where
  "f_frac x = unat x mod 2 ^ 23"

text \<open>\<open>m / 2 ^ k\<close> rounded to the nearest integer, a tie to the even one.\<close>

definition round_even :: "nat \<Rightarrow> nat \<Rightarrow> nat" where
  "round_even m k =
     (let q = m div 2 ^ k; r = m mod 2 ^ k
      in if 2 * r > 2 ^ k \<or> (2 * r = 2 ^ k \<and> odd q) then q + 1 else q)"

text \<open>
  \<^verbatim>\<open>(float)x\<close> for a \<^verbatim>\<open>double\<close> \<open>x\<close>, in the default rounding mode: the exponent and
  fraction bits of the result from those of \<open>x\<close>. A NaN stays a NaN (quiet, with
  the leading bits of its payload) and an infinity an infinity; a value whose
  magnitude is at least \<open>2 ^ -126\<close> is rounded to 24 significant bits, and to
  infinity when that is beyond the largest \<^verbatim>\<open>float\<close>; a smaller one is rounded to a
  multiple of \<open>2 ^ -149\<close>.
\<close>

definition float_bits :: "nat \<Rightarrow> nat \<Rightarrow> nat" where
  "float_bits e f =
     (if e = 2047 then
        (if f = 0 then 0x7F800000
         else 0x7F800000 + (if f div 2 ^ 51 = 1 then f div 2 ^ 29 else f div 2 ^ 29 + 2 ^ 22))
      else if 897 \<le> e then
        min 0x7F800000 ((e - 897) * 2 ^ 23 + round_even (2 ^ 52 + f) 29)
      else if e = 0 then round_even f 925
      else round_even (2 ^ 52 + f) (926 - e))"

definition double_to_float :: "double \<Rightarrow> float" where
  "double_to_float d = of_nat (d_sign d * 2 ^ 31 + float_bits (d_exp d) (d_frac d))"

text \<open>The number of bits of \<open>n\<close>.\<close>

fun bitlen :: "nat \<Rightarrow> nat" where
  "bitlen n = (if n = 0 then 0 else Suc (bitlen (n div 2)))"

declare bitlen.simps [simp del]

text \<open>
  \<^verbatim>\<open>(double)y\<close> for a \<^verbatim>\<open>float\<close> \<open>y\<close>: exact for every number, a subnormal \<open>y\<close> becoming
  a normal \<^verbatim>\<open>double\<close>.
\<close>

definition double_bits :: "nat \<Rightarrow> nat \<Rightarrow> nat" where
  "double_bits e m =
     (if e = 255 then
        (if m = 0 then 0x7FF0000000000000
         else 0x7FF0000000000000 + (if m div 2 ^ 22 = 1 then m * 2 ^ 29 else m * 2 ^ 29 + 2 ^ 51))
      else if e = 0 then
        (if m = 0 then 0 else (bitlen m + 872) * 2 ^ 52 + m * 2 ^ (53 - bitlen m))
      else (e + 896) * 2 ^ 52 + m * 2 ^ 29)"

definition float_to_double :: "float \<Rightarrow> double" where
  "float_to_double x = of_nat (f_sign x * 2 ^ 63 + double_bits (f_exp x) (f_frac x))"

text \<open>
  The value of a finite \<^verbatim>\<open>double\<close> as an integer: its multiple of \<open>2 ^ -1074\<close>, the
  smallest positive \<^verbatim>\<open>double\<close>.
\<close>

definition d_finite :: "double \<Rightarrow> bool" where
  "d_finite d = (d_exp d \<noteq> 2047)"

definition d_mag :: "double \<Rightarrow> nat" where
  "d_mag d = (if d_exp d = 0 then d_frac d else (2 ^ 52 + d_frac d) * 2 ^ (d_exp d - 1))"

definition d_val :: "double \<Rightarrow> int" where
  "d_val d = (if d_sign d = 1 then - int (d_mag d) else int (d_mag d))"

text \<open>
  The tolerance of single precision: \<open>w\<close> is a number that differs from the number
  \<open>v\<close> by at most \<open>2 ^ -24\<close> of the magnitude of \<open>v\<close>, half a unit in the last of
  the 24 significant bits of a \<^verbatim>\<open>float\<close>. A NaN or an infinity is within tolerance of
  nothing.
\<close>

definition within_tolerance :: "double \<Rightarrow> double \<Rightarrow> bool" where
  "within_tolerance v w =
     (d_finite v \<and> d_finite w \<and> 2 ^ 24 * \<bar>d_val w - d_val v\<bar> \<le> \<bar>d_val v\<bar>)"

text \<open>
  The doubles that are zero or whose magnitude is at least \<open>2 ^ -126\<close>, the smallest
  normal \<^verbatim>\<open>float\<close>, and less than \<open>(2 - 2 ^ -24) * 2 ^ 127\<close>, where rounding to
  \<^verbatim>\<open>float\<close> starts to give infinity.
\<close>

definition in_float_range :: "double \<Rightarrow> bool" where
  "in_float_range d =
     ((d_exp d = 0 \<and> d_frac d = 0)
      \<or> (897 \<le> d_exp d
          \<and> (d_exp d \<le> 1149 \<or> (d_exp d = 1150 \<and> d_frac d < 2 ^ 52 - 2 ^ 28))))"

subsection \<open>The data of the scenarios\<close>

text \<open>
  The doubles 0.1, 0.2, 0.3, 0.4, 0.5 and 0.6 of the spec's scenario, the floats that
  the conversion to \<^verbatim>\<open>float\<close> makes of them (IEEE 754, round to nearest), and the
  doubles that the conversion back makes of those. The two tables give the
  conversions on these values only; they are used where a theorem is applied to
  the scenario.
\<close>

definition scenario_commands :: "double list" where
  "scenario_commands =
     [0x3FB999999999999A, 0x3FC999999999999A, 0x3FD3333333333333,
      0x3FD999999999999A, 0x3FE0000000000000, 0x3FE3333333333333]"

definition scenario_angles :: KinovaAngles where
  "scenario_angles =
     \<lparr>Actuator1 = 0x3DCCCCCD, Actuator2 = 0x3E4CCCCD, Actuator3 = 0x3E99999A,
      Actuator4 = 0x3ECCCCCD, Actuator5 = 0x3F000000, Actuator6 = 0x3F19999A\<rparr>"

definition scenario_states :: "double list" where
  "scenario_states =
     [0x3FB99999A0000000, 0x3FC99999A0000000, 0x3FD3333340000000,
      0x3FD99999A0000000, 0x3FE0000000000000, 0x3FE3333340000000]"

definition scenario_cast_float :: "double \<Rightarrow> float" where
  "scenario_cast_float d =
     (case map_of (zip scenario_commands (angles_list scenario_angles)) d of
        Some f \<Rightarrow> f
      | None \<Rightarrow> 0)"

definition scenario_cast_double :: "float \<Rightarrow> double" where
  "scenario_cast_double f =
     (case map_of (zip (angles_list scenario_angles) scenario_states) f of
        Some d \<Rightarrow> d
      | None \<Rightarrow> 0)"

text \<open>
  A Command Buffer outside the range of \<^verbatim>\<open>float\<close>: the double 1e300 and the quiet
  NaN in the first two slots, and what the two conversions make of the six slots.
\<close>

definition huge_commands :: "double list" where
  "huge_commands =
     [0x7E37E43C8800759C, 0x7FF8000000000000, 0x3FD3333333333333,
      0x3FD999999999999A, 0x3FE0000000000000, 0x3FE3333333333333]"

definition huge_angles :: KinovaAngles where
  "huge_angles =
     \<lparr>Actuator1 = 0x7F800000, Actuator2 = 0x7FC00000, Actuator3 = 0x3E99999A,
      Actuator4 = 0x3ECCCCCD, Actuator5 = 0x3F000000, Actuator6 = 0x3F19999A\<rparr>"

definition huge_states :: "double list" where
  "huge_states =
     [0x7FF0000000000000, 0x7FF8000000000000, 0x3FD3333340000000,
      0x3FD99999A0000000, 0x3FE0000000000000, 0x3FE3333340000000]"

text \<open>A default-constructed \<^verbatim>\<open>KinovaAngles\<close> with every slot zero.\<close>

definition zero_angles :: KinovaAngles where
  "zero_angles =
     \<lparr>Actuator1 = 0, Actuator2 = 0, Actuator3 = 0,
      Actuator4 = 0, Actuator5 = 0, Actuator6 = 0\<rparr>"

text \<open>
  The object of the scenarios: constructed and initialised with the six joints
  (\<open>arm_idle\<close>); the same object with a session, \<^verbatim>\<open>comm\<close> pointing to the one
  \<^verbatim>\<open>KinovaComm\<close> object that exists (\<open>arm_active\<close>); and that object after the
  framework has stored the six commands through the command interfaces
  (\<open>arm_commanded\<close>).
\<close>

definition arm_idle :: ovis where
  "arm_idle = snd (on_init SUCCESS arm_info OvisHWInterface)"

definition arm_active :: ovis where
  "arm_active = arm_idle\<lparr>comm := Some 1, kinova_heap := [1]\<rparr>"

definition arm_commanded :: ovis where
  "arm_commanded = arm_active\<lparr>hw_commands := scenario_commands\<rparr>"

section \<open>The scenario objects\<close>

lemma arm_idle_eq:
  "arm_idle = \<lparr>info = arm_info,
      hw_states = [quiet_NaN, quiet_NaN, quiet_NaN, quiet_NaN, quiet_NaN, quiet_NaN],
      hw_commands = [quiet_NaN, quiet_NaN, quiet_NaN, quiet_NaN, quiet_NaN, quiet_NaN],
      comm = None, kinova_heap = []\<rparr>"
  by (simp add: arm_idle_def on_init_def SystemInterface_on_init_def Let_def
      OvisHWInterface_def resize_def arm_info_def)

lemma arm_active_eq:
  "arm_active = \<lparr>info = arm_info,
      hw_states = [quiet_NaN, quiet_NaN, quiet_NaN, quiet_NaN, quiet_NaN, quiet_NaN],
      hw_commands = [quiet_NaN, quiet_NaN, quiet_NaN, quiet_NaN, quiet_NaN, quiet_NaN],
      comm = Some 1, kinova_heap = [1]\<rparr>"
  by (simp add: arm_active_def arm_idle_eq)

lemma length_joints_arm_info: "length (joints arm_info) = 6"
  by (simp add: arm_info_def)

lemma arm_idle_facts:
  "comm arm_idle = None" "session arm_idle = None" "kinova_heap arm_idle = []"
  "length (joints (info arm_idle)) = 6"
  "length (hw_states arm_idle) = 6" "length (hw_commands arm_idle) = 6"
  by (simp_all add: arm_idle_eq session_def length_joints_arm_info)

lemma arm_active_facts:
  "comm arm_active = Some 1" "session arm_active = Some 1" "kinova_heap arm_active = [1]"
  "length (joints (info arm_active)) = 6"
  "length (hw_states arm_active) = 6" "length (hw_commands arm_active) = 6"
  by (simp_all add: arm_active_eq session_def length_joints_arm_info)

lemma arm_commanded_facts:
  "comm arm_commanded = Some 1" "session arm_commanded = Some 1"
  "length (joints (info arm_commanded)) = 6"
  "length (hw_states arm_commanded) = 6"
  "hw_commands arm_commanded = scenario_commands"
  by (simp_all add: arm_commanded_def arm_active_eq session_def length_joints_arm_info)

lemma scenario_commands_six:
  "scenario_commands = [0x3FB999999999999A, 0x3FC999999999999A, 0x3FD3333333333333,
      0x3FD999999999999A, 0x3FE0000000000000, 0x3FE3333333333333]"
  by (simp add: scenario_commands_def)

lemma scenario_cast_float_commands:
  "\<lparr>Actuator1 = scenario_cast_float 0x3FB999999999999A,
    Actuator2 = scenario_cast_float 0x3FC999999999999A,
    Actuator3 = scenario_cast_float 0x3FD3333333333333,
    Actuator4 = scenario_cast_float 0x3FD999999999999A,
    Actuator5 = scenario_cast_float 0x3FE0000000000000,
    Actuator6 = scenario_cast_float 0x3FE3333333333333\<rparr> = scenario_angles"
  by (simp add: scenario_cast_float_def scenario_commands_def scenario_angles_def
      angles_list_def)

lemma scenario_cast_double_angles:
  "map scenario_cast_double (take 6 (angles_list scenario_angles)) = scenario_states"
  by (simp add: scenario_cast_double_def scenario_states_def scenario_angles_def
      angles_list_def)

section \<open>Initialisation\<close>

lemma isnan_quiet_NaN: "isnan quiet_NaN"
  by (simp add: isnan_def quiet_NaN_def)

lemma resize_length: "length (resize xs n v) = n"
  by (simp add: resize_def)

lemma resize_same: "set xs \<subseteq> {v} \<Longrightarrow> resize xs n v = replicate n v"
proof -
  assume "set xs \<subseteq> {v}"
  then have "\<forall>x\<in>set xs. x = v" by blast
  then have xs: "xs = replicate (length xs) v"
    by (simp add: replicate_length_same)
  have "resize (replicate (length xs) v) n v = replicate n v"
    by (simp add: resize_def min_def flip: replicate_add)
  with xs show ?thesis by simp
qed

lemma resize_keeps: "n \<le> length xs \<Longrightarrow> resize xs n v = take n xs"
  by (simp add: resize_def)

lemma on_init_success:
  "on_init base hwinfo s = (SUCCESS, s') \<Longrightarrow>
     s' = s\<lparr>info := hwinfo,
            hw_states := resize (hw_states s) (length (joints hwinfo)) quiet_NaN,
            hw_commands := resize (hw_commands s) (length (joints hwinfo)) quiet_NaN\<rparr>"
  by (auto simp: on_init_def SystemInterface_on_init_def Let_def split: if_splits)

text \<open>
  When the base class refuses the joint set, \<^verbatim>\<open>on_init\<close> returns \<^verbatim>\<open>ERROR\<close> and the
  buffers and the session pointer are as they were.
\<close>

lemma on_init_failure:
  "base \<noteq> SUCCESS \<Longrightarrow> on_init base hwinfo s = (ERROR, s\<lparr>info := hwinfo\<rparr>)"
  by (simp add: on_init_def SystemInterface_on_init_def)

text \<open>
  \<^verbatim>\<open>resize\<close> does not overwrite: a buffer that already has a slot per joint is left
  as it is by a later \<^verbatim>\<open>on_init\<close>.
\<close>

lemma on_init_keeps:
  assumes "on_init base hwinfo s = (SUCCESS, s')"
    and "length (hw_states s) = length (joints hwinfo)"
  shows "hw_states s' = hw_states s"
  using on_init_success [OF assms(1)] assms(2) by (simp add: resize_keeps)

text \<open>
  C1. After a successful \<^verbatim>\<open>on_init\<close> the State Buffer and the Command Buffer each
  hold exactly as many entries as the joint set has joints, and every entry of both
  is the quiet NaN. \<^verbatim>\<open>resize\<close> keeps the entries that are there, so this is for an
  object whose buffers hold nothing but the quiet NaN before the call: the empty
  buffers of a newly constructed object, or those of an earlier \<^verbatim>\<open>on_init\<close>.
\<close>

theorem on_init_buffers:
  assumes "set (hw_states s) \<subseteq> {quiet_NaN}" and "set (hw_commands s) \<subseteq> {quiet_NaN}"
    and "length (joints hwinfo) = N"
    and "on_init base hwinfo s = (SUCCESS, s')"
  shows "length (hw_states s') = N \<and> length (hw_commands s') = N
       \<and> hw_states s' = replicate N quiet_NaN
       \<and> hw_commands s' = replicate N quiet_NaN
       \<and> list_all isnan (hw_states s') \<and> list_all isnan (hw_commands s')"
proof -
  from assms(4) have s': "s' = s\<lparr>info := hwinfo,
        hw_states := resize (hw_states s) (length (joints hwinfo)) quiet_NaN,
        hw_commands := resize (hw_commands s) (length (joints hwinfo)) quiet_NaN\<rparr>"
    by (rule on_init_success)
  have st: "hw_states s' = replicate N quiet_NaN"
    using assms(1,3) by (simp add: s' resize_same)
  have cm: "hw_commands s' = replicate N quiet_NaN"
    using assms(2,3) by (simp add: s' resize_same)
  have "list_all isnan (replicate N quiet_NaN)"
    by (simp add: list_all_iff isnan_quiet_NaN)
  with st cm show ?thesis by simp
qed

theorem on_init_buffers_witness:
  "set (hw_states OvisHWInterface) \<subseteq> {quiet_NaN}
   \<and> set (hw_commands OvisHWInterface) \<subseteq> {quiet_NaN}
   \<and> length (joints arm_info) = 6
   \<and> on_init SUCCESS arm_info OvisHWInterface = (SUCCESS, arm_idle)
   \<and> hw_states arm_idle
       = [quiet_NaN, quiet_NaN, quiet_NaN, quiet_NaN, quiet_NaN, quiet_NaN]
   \<and> hw_commands arm_idle
       = [quiet_NaN, quiet_NaN, quiet_NaN, quiet_NaN, quiet_NaN, quiet_NaN]
   \<and> list_all isnan (hw_states arm_idle) \<and> list_all isnan (hw_commands arm_idle)"
proof -
  have h1: "set (hw_states OvisHWInterface) \<subseteq> {quiet_NaN}"
    and h2: "set (hw_commands OvisHWInterface) \<subseteq> {quiet_NaN}"
    by (simp_all add: OvisHWInterface_def)
  have h4: "on_init SUCCESS arm_info OvisHWInterface = (SUCCESS, arm_idle)"
    by (simp add: arm_idle_def on_init_def SystemInterface_on_init_def Let_def)
  from on_init_buffers [OF h1 h2 length_joints_arm_info h4]
  have n: "list_all isnan (hw_states arm_idle)" "list_all isnan (hw_commands arm_idle)"
    by blast+
  have e: "hw_states arm_idle
       = [quiet_NaN, quiet_NaN, quiet_NaN, quiet_NaN, quiet_NaN, quiet_NaN]"
    "hw_commands arm_idle
       = [quiet_NaN, quiet_NaN, quiet_NaN, quiet_NaN, quiet_NaN, quiet_NaN]"
    by (simp_all add: arm_idle_eq)
  from h1 h2 length_joints_arm_info h4 e n show ?thesis by blast
qed

section \<open>The read cycle\<close>

lemma and_then_Returns_iff:
  "and_then m f = Returns y \<longleftrightarrow> (\<exists>x. m = Returns x \<and> f x = Returns y)"
  by (cases m) simp_all

lemma angles_at_list: "i < 6 \<Longrightarrow> angles_at a i = Some (angles_list a ! i)"
proof -
  assume "i < 6"
  then consider "i = 0" | "i = 1" | "i = 2" | "i = 3" | "i = 4" | "i = 5" by linarith
  then show ?thesis
    by cases (simp_all add: angles_at_def angles_list_def)
qed

lemma length_angles_list: "length (angles_list a) = 6"
  by (simp add: angles_list_def)

text \<open>
  The loop from index \<open>i\<close> keeps the slots below \<open>i\<close> and fills the others with
  the converted device values.
\<close>

lemma read_loop_result:
  "n \<le> 6 \<Longrightarrow> length st = n \<Longrightarrow> i \<le> n \<Longrightarrow>
   read_loop cd a n i st
     = Returns (take i st @ map cd (drop i (take n (angles_list a))))"
proof (induction cd a n i st rule: read_loop.induct)
  case (1 cd a n i st)
  show ?case
  proof (cases "i < n")
    case False
    with "1.prems" have "i = n" by simp
    with "1.prems" show ?thesis by (simp add: read_loop.simps [of cd a n n st])
  next
    case True
    with "1.prems" have i6: "i < 6" and il: "i < length st" by simp_all
    have at: "angles_at a i = Some (angles_list a ! i)" using i6 by (rule angles_at_list)
    let ?v = "cd (angles_list a ! i)"
    have ih: "read_loop cd a n (Suc i) (st[i := ?v])
        = Returns (take (Suc i) (st[i := ?v]) @ map cd (drop (Suc i) (take n (angles_list a))))"
      using "1.IH" [OF True at il] "1.prems" True by simp
    have t: "take (Suc i) (st[i := ?v]) = take i st @ [?v]"
      using il by (simp add: take_Suc_conv_app_nth)
    have d: "drop i (take n (angles_list a))
        = angles_list a ! i # drop (Suc i) (take n (angles_list a))"
    proof -
      have "i < length (take n (angles_list a))"
        using True "1.prems" by (simp add: length_angles_list)
      then have "take n (angles_list a) ! i # drop (Suc i) (take n (angles_list a))
          = drop i (take n (angles_list a))"
        by (rule Cons_nth_drop_Suc)
      moreover have "take n (angles_list a) ! i = angles_list a ! i"
        using True by simp
      ultimately show ?thesis by (simp only:)
    qed
    show ?thesis
      by (subst read_loop.simps) (simp add: True at il ih t d)
  qed
qed

lemma read_hw_throws:
  "session s = Some p \<Longrightarrow> read_hw cd (Inl e) s = Returns (RT_ERROR, s)"
  by (simp add: read_hw_def)

lemma read_hw_filled:
  assumes "session s = Some p" and "length (joints (info s)) = N" and "N \<le> 6"
    and "length (hw_states s) = N"
  shows "read_hw cd (Inr a) s
     = Returns (OK, s\<lparr>hw_states := map cd (take N (angles_list a))\<rparr>)"
proof -
  have "read_loop cd a N 0 (hw_states s) = Returns (map cd (take N (angles_list a)))"
    using assms read_loop_result [of N "hw_states s" 0 cd a] by simp
  with assms show ?thesis by (simp add: read_hw_def)
qed

lemma read_hw_null: "session s = None \<Longrightarrow> read_hw cd got s = Undefined"
  by (simp add: read_hw_def)

lemma read_scenario:
  assumes "session s = Some p" and "length (joints (info s)) = 6"
    and "length (hw_states s) = 6"
  shows "read_hw scenario_cast_double (Inr scenario_angles) s
     = Returns (OK, s\<lparr>hw_states := scenario_states\<rparr>)"
  using read_hw_filled [OF assms(1,2) _ assms(3), of scenario_cast_double scenario_angles]
  by (simp add: scenario_cast_double_angles)

text \<open>
  C2. With a session, \<^verbatim>\<open>read\<close> returns \<^verbatim>\<open>ERROR\<close> and leaves the object, and so every
  slot of the State Buffer, as it was when \<^verbatim>\<open>getJointAngles\<close> throws; and when
  \<^verbatim>\<open>getJointAngles\<close> succeeds, on an object whose State Buffer has one slot per
  joint and that has at most six joints, it returns \<^verbatim>\<open>OK\<close> and the State Buffer
  holds exactly the device's values converted to \<^verbatim>\<open>double\<close>, in joint order.
\<close>

theorem read_hw_result:
  assumes "session s = Some p"
  shows "read_hw cd (Inl e) s = Returns (RT_ERROR, s)
       \<and> (length (joints (info s)) = N \<and> N \<le> 6 \<and> length (hw_states s) = N \<longrightarrow>
            read_hw cd (Inr a) s
              = Returns (OK, s\<lparr>hw_states := map cd (take N (angles_list a))\<rparr>))"
  using assms by (simp add: read_hw_throws read_hw_filled)

theorem read_hw_result_witness:
  "session arm_active = Some 1
   \<and> length (joints (info arm_active)) = 6 \<and> length (hw_states arm_active) = 6
   \<and> read_hw scenario_cast_double (Inl ''link down'') arm_active
       = Returns (RT_ERROR, arm_active)
   \<and> read_hw scenario_cast_double (Inr scenario_angles) arm_active
       = Returns (OK, arm_active\<lparr>hw_states := scenario_states\<rparr>)"
  using read_hw_result [OF arm_active_facts(2), of scenario_cast_double "''link down''" 6
      scenario_angles]
  by (simp add: arm_active_facts scenario_cast_double_angles)

section \<open>The write cycle\<close>

lemma RCLCPP_LOG_logger: "RCLCPP_LOG logger = Undefined"
  by (simp add: logger_def)

lemma angles_put_Some: "i < 6 \<Longrightarrow> \<exists>a'. angles_put a i v = Some a'"
  by (simp add: angles_put_def)

lemma write_loop_returns:
  "n \<le> 6 \<Longrightarrow> n \<le> length cs \<Longrightarrow> \<exists>a'. write_loop cf cs n i a = Returns a'"
proof (induction cf cs n i a rule: write_loop.induct)
  case (1 cf cs n i a)
  show ?case
  proof (cases "i < n")
    case False
    then show ?thesis by (simp add: write_loop.simps [of cf cs n i a])
  next
    case True
    with "1.prems" have il: "i < length cs" and i6: "i < 6" by simp_all
    from i6 obtain a' where put: "angles_put a i (cf (cs ! i)) = Some a'"
      using angles_put_Some by blast
    from "1.IH" [OF True il put] "1.prems"
    obtain a'' where "write_loop cf cs n (Suc i) a' = Returns a''" by blast
    then show ?thesis
      by (subst write_loop.simps) (simp add: True il put)
  qed
qed

text \<open>With six joints the loop fills the six slots with the converted commands.\<close>

lemma write_loop_six:
  "write_loop cf [c1, c2, c3, c4, c5, c6] 6 0 a
     = Returns \<lparr>Actuator1 = cf c1, Actuator2 = cf c2, Actuator3 = cf c3,
                Actuator4 = cf c4, Actuator5 = cf c5, Actuator6 = cf c6\<rparr>"
  by (simp add: write_loop.simps angles_put_def)

lemma length_scenario_commands: "length scenario_commands = 6"
  by (simp add: scenario_commands_def)

lemma write_loop_scenario:
  "write_loop scenario_cast_float scenario_commands 6 0 zero_angles = Returns scenario_angles"
  by (simp add: scenario_commands_six write_loop_six scenario_cast_float_commands)

text \<open>
  \<^verbatim>\<open>write\<close> never returns: without a session the call through \<^verbatim>\<open>comm\<close> is undefined,
  and with one the log macro after \<^verbatim>\<open>setJointAngles\<close> reads the dangling reference.
\<close>

lemma write_hw_never_returns: "write_hw cf a0 sent s \<noteq> Returns res"
  by (auto simp: write_hw_def and_then_Returns_iff RCLCPP_LOG_logger
      split: option.splits)

lemma write_hw_Undefined:
  assumes "length (joints (info s)) \<le> 6"
    and "length (joints (info s)) \<le> length (hw_commands s)"
  shows "write_hw cf a0 sent s = Undefined"
proof -
  from assms obtain a' where
    "write_loop cf (hw_commands s) (length (joints (info s))) 0 a0 = Returns a'"
    using write_loop_returns by blast
  then show ?thesis
    by (simp add: write_hw_def RCLCPP_LOG_logger split: option.splits)
qed

lemma write_hw_null:
  assumes "session s = None"
  shows "write_hw cf a0 sent s \<noteq> Returns res"
    and "length (joints (info s)) \<le> 6 \<Longrightarrow>
         length (joints (info s)) \<le> length (hw_commands s) \<Longrightarrow>
         write_hw cf a0 sent s = Undefined"
  by (rule write_hw_never_returns) (rule write_hw_Undefined)

text \<open>
  C6. The claim fails on the code. In the scenario (six joints, a session, the
  Command Buffer 0.1, ..., 0.6) the loop of \<^verbatim>\<open>write\<close> builds the record of the six
  commands converted to \<^verbatim>\<open>float\<close>, and \<^verbatim>\<open>setJointAngles\<close> is called with it; but
  \<^verbatim>\<open>write\<close> then reads \<^verbatim>\<open>logger()\<close> for its next log line, and that is undefined
  behaviour: it does not return success.
\<close>

theorem write_scenario_undefined:
  "session arm_commanded = Some 1 \<and> length (joints (info arm_commanded)) = 6
   \<and> hw_commands arm_commanded = scenario_commands
   \<and> write_loop scenario_cast_float (hw_commands arm_commanded) 6 0 zero_angles
       = Returns scenario_angles
   \<and> write_hw scenario_cast_float zero_angles None arm_commanded = Undefined"
  by (simp add: arm_commanded_facts write_loop_scenario write_hw_Undefined
      length_scenario_commands)

section \<open>What the cycles leave alone\<close>

text \<open>
  A \<^verbatim>\<open>read\<close> that returns leaves the Command Buffer, the joint set and the session
  pointer as they were.
\<close>

lemma read_hw_frame:
  assumes "read_hw cd got s = Returns (r, s')"
  shows "hw_commands s' = hw_commands s" and "info s' = info s"
    and "comm s' = comm s" and "kinova_heap s' = kinova_heap s"
proof -
  from assms have "s' = s \<or> (\<exists>st. s' = s\<lparr>hw_states := st\<rparr>)"
    by (auto simp: read_hw_def and_then_Returns_iff split: option.splits sum.splits)
  then show "hw_commands s' = hw_commands s" and "info s' = info s"
    and "comm s' = comm s" and "kinova_heap s' = kinova_heap s"
    by auto
qed

text \<open>
  C10. The claim fails on the code in its half about \<^verbatim>\<open>write\<close>. No statement of
  \<^verbatim>\<open>write\<close> assigns to a buffer, but with a session every path through it, the
  one where \<^verbatim>\<open>setJointAngles\<close> returns and the one where it throws, reads
  \<^verbatim>\<open>logger()\<close> afterwards: the behaviour is undefined, and nothing is promised about
  the buffers. (The half about \<^verbatim>\<open>read\<close> holds: \<open>read_hw_frame\<close>.)
\<close>

theorem write_frame_undefined:
  "session arm_commanded = Some 1
   \<and> write_hw scenario_cast_float zero_angles (Some ''link down'') arm_commanded = Undefined
   \<and> write_hw scenario_cast_float zero_angles None arm_commanded = Undefined"
  by (simp add: arm_commanded_facts write_hw_Undefined length_scenario_commands)

section \<open>A cycle without a session\<close>

text \<open>
  C8, as the claim states it, fails: on the initialised object that was never
  activated, \<^verbatim>\<open>comm\<close> is null, and \<^verbatim>\<open>read\<close> and \<^verbatim>\<open>write\<close> call a member function
  through it. That is undefined behaviour, not a failure result, whatever the
  device would have answered.
\<close>

theorem null_session_counterexample:
  "comm arm_idle = None
   \<and> read_hw scenario_cast_double (Inl ''link down'') arm_idle \<noteq> Returns (RT_ERROR, arm_idle)
   \<and> read_hw scenario_cast_double (Inl ''link down'') arm_idle = Undefined
   \<and> read_hw scenario_cast_double (Inr scenario_angles) arm_idle = Undefined
   \<and> write_hw scenario_cast_float zero_angles (Some ''link down'') arm_idle = Undefined
   \<and> write_hw scenario_cast_float zero_angles None arm_idle = Undefined"
  by (simp add: arm_idle_facts read_hw_null write_hw_null(2))

text \<open>
  C8, amended. When \<^verbatim>\<open>comm\<close> is null, \<^verbatim>\<open>read\<close> is undefined behaviour and \<^verbatim>\<open>write\<close>
  never returns a result, failure or other: it is undefined behaviour too once its
  conversion loop is through, which it is with at most six joints and a Command
  Buffer of at least as many slots. The code has no guard.
\<close>

theorem null_session_undefined:
  assumes "comm s = None"
  shows "read_hw cd got s = Undefined
       \<and> (\<forall>res. write_hw cf a0 sent s \<noteq> Returns res)
       \<and> (length (joints (info s)) \<le> 6 \<and> length (joints (info s)) \<le> length (hw_commands s)
            \<longrightarrow> write_hw cf a0 sent s = Undefined)"
proof -
  have n: "session s = None" using assms by (simp add: session_def)
  then show ?thesis
    by (simp add: read_hw_null write_hw_null)
qed

theorem null_session_undefined_witness:
  "comm arm_idle = None \<and> length (joints (info arm_idle)) \<le> 6
   \<and> length (joints (info arm_idle)) \<le> length (hw_commands arm_idle)
   \<and> read_hw scenario_cast_double (Inl ''link down'') arm_idle = Undefined
   \<and> write_hw scenario_cast_float zero_angles (Some ''link down'') arm_idle = Undefined"
  using null_session_undefined [OF arm_idle_facts(1), of scenario_cast_double
      "Inl ''link down''" scenario_cast_float zero_angles "Some ''link down''"]
  by (simp add: arm_idle_facts)

section \<open>The exported interfaces\<close>

lemma export_state_loop_result:
  "length (hw_states s) = length (joints (info s)) \<Longrightarrow> i \<le> length (joints (info s)) \<Longrightarrow>
   export_state_loop s i acc
     = Returns (acc @ map (\<lambda>k. \<lparr>prefix_name = name (joints (info s) ! k),
          interface_name = ''position'', value_ptr = StateSlot k\<rparr>)
        [i..<length (joints (info s))])"
proof (induction s i acc rule: export_state_loop.induct)
  case (1 s i acc)
  show ?case
  proof (cases "i < length (joints (info s))")
    case False
    with "1.prems" show ?thesis
      by (subst export_state_loop.simps) simp
  next
    case True
    with "1.prems" have il: "i < length (hw_states s)" by simp
    have u: "[i..<length (joints (info s))] = i # [Suc i..<length (joints (info s))]"
      using True by (rule upt_conv_Cons)
    show ?thesis
      using "1.IH" [OF True il] "1.prems" True il
      by (subst export_state_loop.simps) (simp add: u HW_IF_POSITION_def)
  qed
qed

lemma export_command_loop_result:
  "length (hw_commands s) = length (joints (info s)) \<Longrightarrow> i \<le> length (joints (info s)) \<Longrightarrow>
   export_command_loop s i acc
     = Returns (acc @ map (\<lambda>k. \<lparr>prefix_name = name (joints (info s) ! k),
          interface_name = ''position'', value_ptr = CommandSlot k\<rparr>)
        [i..<length (joints (info s))])"
proof (induction s i acc rule: export_command_loop.induct)
  case (1 s i acc)
  show ?case
  proof (cases "i < length (joints (info s))")
    case False
    with "1.prems" show ?thesis
      by (subst export_command_loop.simps) simp
  next
    case True
    with "1.prems" have il: "i < length (hw_commands s)" by simp
    have u: "[i..<length (joints (info s))] = i # [Suc i..<length (joints (info s))]"
      using True by (rule upt_conv_Cons)
    show ?thesis
      using "1.IH" [OF True il] "1.prems" True il
      by (subst export_command_loop.simps) (simp add: u HW_IF_POSITION_def)
  qed
qed

lemma export_arm_idle:
  "export_state_interfaces arm_idle = Returns
     [\<lparr>prefix_name = ''actuator_1'', interface_name = ''position'', value_ptr = StateSlot 0\<rparr>,
      \<lparr>prefix_name = ''actuator_2'', interface_name = ''position'', value_ptr = StateSlot 1\<rparr>,
      \<lparr>prefix_name = ''actuator_3'', interface_name = ''position'', value_ptr = StateSlot 2\<rparr>,
      \<lparr>prefix_name = ''actuator_4'', interface_name = ''position'', value_ptr = StateSlot 3\<rparr>,
      \<lparr>prefix_name = ''actuator_5'', interface_name = ''position'', value_ptr = StateSlot 4\<rparr>,
      \<lparr>prefix_name = ''actuator_6'', interface_name = ''position'', value_ptr = StateSlot 5\<rparr>]"
  "export_command_interfaces arm_idle = Returns
     [\<lparr>prefix_name = ''actuator_1'', interface_name = ''position'', value_ptr = CommandSlot 0\<rparr>,
      \<lparr>prefix_name = ''actuator_2'', interface_name = ''position'', value_ptr = CommandSlot 1\<rparr>,
      \<lparr>prefix_name = ''actuator_3'', interface_name = ''position'', value_ptr = CommandSlot 2\<rparr>,
      \<lparr>prefix_name = ''actuator_4'', interface_name = ''position'', value_ptr = CommandSlot 3\<rparr>,
      \<lparr>prefix_name = ''actuator_5'', interface_name = ''position'', value_ptr = CommandSlot 4\<rparr>,
      \<lparr>prefix_name = ''actuator_6'', interface_name = ''position'', value_ptr = CommandSlot 5\<rparr>]"
  by (simp_all add: export_state_interfaces_def export_state_loop.simps
      export_command_interfaces_def export_command_loop.simps
      arm_idle_eq arm_info_def HW_IF_POSITION_def)

text \<open>
  C9. On an object whose two buffers have one slot per joint, as after \<^verbatim>\<open>on_init\<close>,
  \<^verbatim>\<open>export_state_interfaces\<close> and \<^verbatim>\<open>export_command_interfaces\<close> each return exactly
  as many handles as there are joints; the \<open>i\<close>-th handle carries the name of the
  \<open>i\<close>-th joint and the interface name \<open>position\<close>, and points to slot \<open>i\<close> of the
  State Buffer, respectively of the Command Buffer.
\<close>

theorem export_interfaces_bound:
  assumes "length (joints (info s)) = N" and "length (hw_states s) = N"
    and "length (hw_commands s) = N"
  shows "\<exists>sis cis.
      export_state_interfaces s = Returns sis \<and> export_command_interfaces s = Returns cis
      \<and> length sis = N \<and> length cis = N
      \<and> (\<forall>i<N. sis ! i = \<lparr>prefix_name = name (joints (info s) ! i),
                     interface_name = ''position'', value_ptr = StateSlot i\<rparr>
              \<and> cis ! i = \<lparr>prefix_name = name (joints (info s) ! i),
                     interface_name = ''position'', value_ptr = CommandSlot i\<rparr>)"
proof -
  let ?sis = "map (\<lambda>k. \<lparr>prefix_name = name (joints (info s) ! k),
          interface_name = ''position'', value_ptr = StateSlot k\<rparr>) [0..<N]"
  let ?cis = "map (\<lambda>k. \<lparr>prefix_name = name (joints (info s) ! k),
          interface_name = ''position'', value_ptr = CommandSlot k\<rparr>) [0..<N]"
  have s: "export_state_interfaces s = Returns ?sis"
    using assms export_state_loop_result [of s 0 "[]"]
    by (simp add: export_state_interfaces_def)
  have c: "export_command_interfaces s = Returns ?cis"
    using assms export_command_loop_result [of s 0 "[]"]
    by (simp add: export_command_interfaces_def)
  have "length ?sis = N" and "length ?cis = N" by simp_all
  moreover have "\<forall>i<N. ?sis ! i = \<lparr>prefix_name = name (joints (info s) ! i),
                     interface_name = ''position'', value_ptr = StateSlot i\<rparr>
              \<and> ?cis ! i = \<lparr>prefix_name = name (joints (info s) ! i),
                     interface_name = ''position'', value_ptr = CommandSlot i\<rparr>"
    by simp
  ultimately show ?thesis using s c by blast
qed

theorem export_interfaces_bound_witness:
  "length (joints (info arm_idle)) = 6 \<and> length (hw_states arm_idle) = 6
   \<and> length (hw_commands arm_idle) = 6
   \<and> export_state_interfaces arm_idle = Returns
     [\<lparr>prefix_name = ''actuator_1'', interface_name = ''position'', value_ptr = StateSlot 0\<rparr>,
      \<lparr>prefix_name = ''actuator_2'', interface_name = ''position'', value_ptr = StateSlot 1\<rparr>,
      \<lparr>prefix_name = ''actuator_3'', interface_name = ''position'', value_ptr = StateSlot 2\<rparr>,
      \<lparr>prefix_name = ''actuator_4'', interface_name = ''position'', value_ptr = StateSlot 3\<rparr>,
      \<lparr>prefix_name = ''actuator_5'', interface_name = ''position'', value_ptr = StateSlot 4\<rparr>,
      \<lparr>prefix_name = ''actuator_6'', interface_name = ''position'', value_ptr = StateSlot 5\<rparr>]
   \<and> export_command_interfaces arm_idle = Returns
     [\<lparr>prefix_name = ''actuator_1'', interface_name = ''position'', value_ptr = CommandSlot 0\<rparr>,
      \<lparr>prefix_name = ''actuator_2'', interface_name = ''position'', value_ptr = CommandSlot 1\<rparr>,
      \<lparr>prefix_name = ''actuator_3'', interface_name = ''position'', value_ptr = CommandSlot 2\<rparr>,
      \<lparr>prefix_name = ''actuator_4'', interface_name = ''position'', value_ptr = CommandSlot 3\<rparr>,
      \<lparr>prefix_name = ''actuator_5'', interface_name = ''position'', value_ptr = CommandSlot 4\<rparr>,
      \<lparr>prefix_name = ''actuator_6'', interface_name = ''position'', value_ptr = CommandSlot 5\<rparr>]"
  using export_interfaces_bound [OF arm_idle_facts(4,5,6)]
  by (simp add: arm_idle_facts export_arm_idle)

section \<open>Activation and deactivation\<close>

lemma fresh_notin: "fresh h \<notin> set h"
proof -
  have "\<And>a. \<forall>x\<in>set h. x \<le> fold max h a"
  proof (induction h)
    case Nil
    show ?case by simp
  next
    case (Cons y ys)
    have mono: "\<And>a. a \<le> fold max ys a"
      by (induction ys) (auto intro: order_trans [OF max.cobounded2])
    show ?case
      using Cons.IH [of "max y a"] mono [of "max y a"] by auto
  qed
  then have "\<forall>x\<in>set h. x < fresh h" by (auto simp: fresh_def less_Suc_eq_le)
  then show ?thesis by blast
qed

text \<open>
  \<^verbatim>\<open>on_activate\<close> reads \<^verbatim>\<open>logger()\<close> in its first statement: whatever the
  constructor of the session would do, the behaviour is undefined.
\<close>

lemma on_activate_Undefined: "on_activate opened s = Undefined"
  by (simp add: on_activate_def RCLCPP_LOG_logger)

lemma on_deactivate_null:
  "comm s = None \<Longrightarrow> on_deactivate s = Returns (SUCCESS, s)"
proof -
  assume n: "comm s = None"
  then have "s\<lparr>comm := None\<rparr> = s" by (metis ovis.surjective ovis.update_convs(4))
  with n show ?thesis by (simp add: on_deactivate_def)
qed

lemma on_deactivate_live:
  "comm s = Some p \<Longrightarrow> p \<in> set (kinova_heap s) \<Longrightarrow>
   on_deactivate s
     = Returns (SUCCESS, s\<lparr>comm := None, kinova_heap := removeAll p (kinova_heap s)\<rparr>)"
  by (simp add: on_deactivate_def delete_comm_def)

lemma destructor_null: "comm s = None \<Longrightarrow> destructor s = Returns (s\<lparr>comm := None\<rparr>)"
  by (simp add: destructor_def)

lemma destructor_live:
  "comm s = Some p \<Longrightarrow> p \<in> set (kinova_heap s) \<Longrightarrow>
   destructor s = Returns (s\<lparr>comm := None, kinova_heap := removeAll p (kinova_heap s)\<rparr>)"
  by (simp add: destructor_def delete_comm_def)

text \<open>
  C3. The claim fails on the code. On the initialised object, with \<^verbatim>\<open>comm\<close> null
  and the lifecycle Configured, an \<^verbatim>\<open>on_activate\<close> in which the constructor of the
  session throws does not return \<^verbatim>\<open>ERROR\<close>: it has read \<^verbatim>\<open>logger()\<close> before the
  constructor is called, and reads it again in the handler, which is undefined
  behaviour. (\<^verbatim>\<open>on_deactivate\<close> on that object does return \<^verbatim>\<open>SUCCESS\<close> and changes
  nothing.)
\<close>

theorem on_activate_failure_undefined:
  "comm arm_idle = None
   \<and> on_activate (Inl ''device unreachable'') arm_idle = Undefined
   \<and> step (Activate (Inl ''device unreachable'')) \<lparr>state = Configured, hw = arm_idle\<rparr>
       = Undefined
   \<and> on_deactivate arm_idle = Returns (SUCCESS, arm_idle)"
  by (simp add: arm_idle_facts on_activate_Undefined on_deactivate_null)

text \<open>
  C5. From every object whose \<^verbatim>\<open>comm\<close> is null or points to a session that exists,
  \<^verbatim>\<open>on_deactivate\<close> returns \<^verbatim>\<open>SUCCESS\<close>; afterwards \<^verbatim>\<open>comm\<close> is null, the session it
  pointed to is gone and the joint set and the buffers are as they were; and a
  second \<^verbatim>\<open>on_deactivate\<close> returns \<^verbatim>\<open>SUCCESS\<close> again and leaves that state as it is.
\<close>

theorem on_deactivate_idempotent:
  assumes "comm s = None \<or> session s \<noteq> None"
  shows "\<exists>s'. on_deactivate s = Returns (SUCCESS, s')
       \<and> comm s' = None
       \<and> set (kinova_heap s') = set (kinova_heap s) - set_option (comm s)
       \<and> info s' = info s \<and> hw_states s' = hw_states s \<and> hw_commands s' = hw_commands s
       \<and> on_deactivate s' = Returns (SUCCESS, s')"
proof (cases "comm s")
  case None
  then have "on_deactivate s = Returns (SUCCESS, s)" by (rule on_deactivate_null)
  with None show ?thesis by simp
next
  case (Some p)
  with assms have live: "p \<in> set (kinova_heap s)"
    by (simp add: session_def split: if_splits)
  let ?s' = "s\<lparr>comm := None, kinova_heap := removeAll p (kinova_heap s)\<rparr>"
  have 1: "on_deactivate s = Returns (SUCCESS, ?s')"
    using Some live by (rule on_deactivate_live)
  have 2: "on_deactivate ?s' = Returns (SUCCESS, ?s')"
    by (rule on_deactivate_null) simp
  have 3: "set (kinova_heap ?s') = set (kinova_heap s) - set_option (comm s)"
    using Some by auto
  from 1 2 3 show ?thesis by simp
qed

theorem on_deactivate_idempotent_witness:
  "session arm_active \<noteq> None
   \<and> on_deactivate arm_active = Returns (SUCCESS, arm_idle)
   \<and> on_deactivate arm_idle = Returns (SUCCESS, arm_idle)
   \<and> comm arm_idle = None \<and> kinova_heap arm_idle = []"
proof -
  have h: "comm arm_active = None \<or> session arm_active \<noteq> None"
    by (simp add: arm_active_facts)
  have d: "on_deactivate arm_active = Returns (SUCCESS, arm_idle)"
    by (simp add: on_deactivate_def delete_comm_def arm_active_eq arm_idle_eq)
  from on_deactivate_idempotent [OF h] d show ?thesis
    by (auto simp: arm_active_facts arm_idle_facts)
qed

section \<open>The lifecycle and the session\<close>

lemma on_init_session:
  "comm (snd (on_init base hwinfo s)) = comm s"
  "kinova_heap (snd (on_init base hwinfo s)) = kinova_heap s"
  by (simp_all add: on_init_def SystemInterface_on_init_def Let_def)

lemma session_inv_initial: "session_inv initial"
  by (simp add: session_inv_def initial_def OvisHWInterface_def)

lemma session_inv_step:
  assumes inv: "session_inv n" and en: "enabled e (state n)" and st: "step e n = Returns n'"
  shows "session_inv n'"
proof (cases e)
  case (Initialize base hwinfo)
  with st have "n' = n\<lparr>hw := snd (on_init base hwinfo (hw n))\<rparr>"
    by (simp split: prod.splits)
  with inv show ?thesis by (simp add: session_inv_def on_init_session)
next
  case Configure
  with st have "n' = \<lparr>state = Configured, hw = hw n\<rparr>"
    by (simp add: on_configure_def)
  moreover from Configure en have "state n = Unconfigured" by simp
  ultimately show ?thesis using inv by (simp add: session_inv_def)
next
  case (Activate opened)
  with st show ?thesis by (simp add: on_activate_Undefined)
next
  case Deactivate
  show ?thesis
  proof (cases "comm (hw n)")
    case None
    with inv have idle: "state n \<noteq> Active" by (simp add: session_inv_def)
    from None have "on_deactivate (hw n) = Returns (SUCCESS, hw n)"
      by (rule on_deactivate_null)
    with Deactivate st idle have "n' = \<lparr>state = state n, hw = hw n\<rparr>" by simp
    with inv show ?thesis by (simp add: session_inv_def)
  next
    case (Some p)
    with inv have act: "state n = Active" and heap: "kinova_heap (hw n) = [p]"
      by (simp_all add: session_inv_def)
    from Some heap have "on_deactivate (hw n)
        = Returns (SUCCESS, (hw n)\<lparr>comm := None, kinova_heap := removeAll p (kinova_heap (hw n))\<rparr>)"
      by (intro on_deactivate_live) simp_all
    with Deactivate st act heap
    have "n' = \<lparr>state = Inactive, hw = (hw n)\<lparr>comm := None, kinova_heap := []\<rparr>\<rparr>" by simp
    then show ?thesis by (simp add: session_inv_def)
  qed
next
  case Destruct
  show ?thesis
  proof (cases "comm (hw n)")
    case None
    with inv have empty: "kinova_heap (hw n) = []" by (simp add: session_inv_def)
    from None have "destructor (hw n) = Returns ((hw n)\<lparr>comm := None\<rparr>)"
      by (rule destructor_null)
    with Destruct st have "n' = \<lparr>state = Finalized, hw = (hw n)\<lparr>comm := None\<rparr>\<rparr>" by simp
    with empty show ?thesis by (simp add: session_inv_def)
  next
    case (Some p)
    with inv have heap: "kinova_heap (hw n) = [p]" by (simp add: session_inv_def)
    from Some heap have "destructor (hw n)
        = Returns ((hw n)\<lparr>comm := None, kinova_heap := removeAll p (kinova_heap (hw n))\<rparr>)"
      by (intro destructor_live) simp_all
    with Destruct st heap
    have "n' = \<lparr>state = Finalized, hw = (hw n)\<lparr>comm := None, kinova_heap := []\<rparr>\<rparr>" by simp
    then show ?thesis by (simp add: session_inv_def)
  qed
qed

lemma reachable_session_inv: "reachable n \<Longrightarrow> session_inv n"
  by (induction rule: reachable.induct) (auto intro: session_inv_initial session_inv_step)

lemma session_inv_destructor:
  assumes "session_inv n"
  shows "\<exists>s. destructor (hw n) = Returns s \<and> comm s = None \<and> kinova_heap s = []"
proof (cases "comm (hw n)")
  case None
  with assms have "kinova_heap (hw n) = []" by (simp add: session_inv_def)
  with None show ?thesis by (simp add: destructor_null)
next
  case (Some p)
  with assms have "kinova_heap (hw n) = [p]" by (simp add: session_inv_def)
  with Some show ?thesis by (simp add: destructor_live)
qed

text \<open>
  Teardown: from every object whose \<^verbatim>\<open>comm\<close> is null or points to a session that
  exists, the destructor returns, \<^verbatim>\<open>comm\<close> is null afterwards and the session it
  pointed to is gone.
\<close>

lemma destructor_releases:
  assumes "comm s = None \<or> session s \<noteq> None"
  shows "\<exists>s'. destructor s = Returns s' \<and> comm s' = None
       \<and> set (kinova_heap s') = set (kinova_heap s) - set_option (comm s)"
proof (cases "comm s")
  case None
  then show ?thesis by (simp add: destructor_null)
next
  case (Some p)
  with assms have "p \<in> set (kinova_heap s)"
    by (simp add: session_def split: if_splits)
  with Some show ?thesis by (auto simp: destructor_live)
qed

lemma destructor_arm_active: "destructor arm_active = Returns arm_idle"
  by (simp add: destructor_def delete_comm_def arm_active_eq arm_idle_eq)

text \<open>
  No transition of the lifecycle leads to Active: the only one that could is
  \<open>activate\<close>, and \<^verbatim>\<open>on_activate\<close> does not return.
\<close>

lemma step_Activate_Undefined: "step (Activate opened) n = Undefined"
  by (simp add: on_activate_Undefined)

lemma reachable_not_Active: "reachable n \<Longrightarrow> state n \<noteq> Active"
proof (induction rule: reachable.induct)
  case start
  show ?case by (simp add: initial_def)
next
  case (after n e n')
  show ?case
  proof (cases e)
    case (Initialize base hwinfo)
    with after show ?thesis by (auto split: prod.splits)
  next
    case Configure
    with after show ?thesis by (auto simp: on_configure_def)
  next
    case (Activate opened)
    with after show ?thesis by (simp add: on_activate_Undefined)
  next
    case Deactivate
    with after show ?thesis by (auto simp: and_then_Returns_iff)
  next
    case Destruct
    with after show ?thesis by (auto simp: and_then_Returns_iff)
  qed
qed

lemma reachable_no_session:
  "reachable n \<Longrightarrow> comm (hw n) = None \<and> kinova_heap (hw n) = []"
  using reachable_session_inv [of n] reachable_not_Active [of n]
  by (auto simp: session_inv_def)

lemma reachable_arm_idle: "reachable \<lparr>state = Configured, hw = arm_idle\<rparr>"
proof -
  have "reachable \<lparr>state = Unconfigured, hw = arm_idle\<rparr>"
    by (rule reachable.after [OF reachable.start, of "Initialize SUCCESS arm_info"])
      (simp_all add: initial_def arm_idle_def split: prod.splits)
  then show ?thesis
    by (rule reachable.after [of _ Configure]) (simp_all add: on_configure_def)
qed

text \<open>
  C4. The claim fails on the code. The lifecycle reaches the state Configured with
  the initialised object, where \<open>activate\<close> is allowed; but \<^verbatim>\<open>on_activate\<close> reads
  \<^verbatim>\<open>logger()\<close> before it constructs the session, which is undefined behaviour, so
  there is no state after a successful \<open>activate\<close> in which \<^verbatim>\<open>comm\<close> points to the
  one session. What is left of the invariant holds in the states that never saw an
  activation (\<open>reachable_no_session\<close>), and the destructor releases a session
  that exists (\<open>destructor_releases\<close>).
\<close>

theorem activate_step_undefined:
  "reachable \<lparr>state = Configured, hw = arm_idle\<rparr>
   \<and> enabled (Activate (Inr ())) (state \<lparr>state = Configured, hw = arm_idle\<rparr>)
   \<and> on_activate (Inr ()) arm_idle = Undefined
   \<and> step (Activate (Inr ())) \<lparr>state = Configured, hw = arm_idle\<rparr> = Undefined"
  by (simp add: reachable_arm_idle on_activate_Undefined)

section \<open>To float and back\<close>

lemma unat_of_nat32: "n < 2 ^ 32 \<Longrightarrow> unat (of_nat n :: 32 word) = n"
  by (simp add: unat_of_nat)

lemma unat_of_nat64: "n < 2 ^ 64 \<Longrightarrow> unat (of_nat n :: 64 word) = n"
  by (simp add: unat_of_nat)

lemma d_fields_bounds: "d_sign d < 2" "d_exp d < 2048" "d_frac d < 2 ^ 52"
proof -
  have "unat d < 2 ^ 64" using unsigned_less [of d] by simp
  then show "d_sign d < 2" by (simp add: d_sign_def less_mult_imp_div_less)
  show "d_exp d < 2048" by (simp add: d_exp_def)
  show "d_frac d < 2 ^ 52" by (simp add: d_frac_def)
qed

text \<open>The fields of a word that is put together from a sign and the other bits.\<close>

lemma fields32:
  assumes u: "unat x = s * 2 ^ 31 + b" and "s < 2" and "b < 2 ^ 31"
  shows "f_sign x = s" and "f_exp x = b div 2 ^ 23" and "f_frac x = b mod 2 ^ 23"
proof -
  show "f_sign x = s"
    using assms(2,3) unfolding f_sign_def u by simp
  have "(s * 2 ^ 31 + b) div 2 ^ 23 = s * 2 ^ 8 + b div 2 ^ 23"
    by simp
  moreover have "b div 2 ^ 23 < 2 ^ 8" using assms(3) by (simp add: less_mult_imp_div_less)
  ultimately show "f_exp x = b div 2 ^ 23"
    unfolding f_exp_def u by simp
  have "s * 2 ^ 31 = (s * 2 ^ 8) * 2 ^ 23" by simp
  then have "(s * 2 ^ 31 + b) mod 2 ^ 23 = b mod 2 ^ 23"
    by (metis mod_mult_self3)
  then show "f_frac x = b mod 2 ^ 23"
    unfolding f_frac_def u by simp
qed

lemma unpack32:
  assumes "s < 2" and "b < 2 ^ 31"
  shows "f_sign (of_nat (s * 2 ^ 31 + b)) = s"
    and "f_exp (of_nat (s * 2 ^ 31 + b)) = b div 2 ^ 23"
    and "f_frac (of_nat (s * 2 ^ 31 + b)) = b mod 2 ^ 23"
proof -
  have "s * 2 ^ 31 + b < 2 ^ 32" using assms by simp
  then have u: "unat (of_nat (s * 2 ^ 31 + b) :: 32 word) = s * 2 ^ 31 + b"
    by (rule unat_of_nat32)
  from fields32 [OF u assms]
  show "f_sign (of_nat (s * 2 ^ 31 + b)) = s"
    and "f_exp (of_nat (s * 2 ^ 31 + b)) = b div 2 ^ 23"
    and "f_frac (of_nat (s * 2 ^ 31 + b)) = b mod 2 ^ 23"
    by blast+
qed

lemma fields64:
  assumes u: "unat x = s * 2 ^ 63 + b" and "s < 2" and "b < 2 ^ 63"
  shows "d_sign x = s" and "d_exp x = b div 2 ^ 52" and "d_frac x = b mod 2 ^ 52"
proof -
  show "d_sign x = s"
    using assms(2,3) unfolding d_sign_def u by simp
  have "(s * 2 ^ 63 + b) div 2 ^ 52 = s * 2 ^ 11 + b div 2 ^ 52"
    by simp
  moreover have "b div 2 ^ 52 < 2 ^ 11" using assms(3) by (simp add: less_mult_imp_div_less)
  ultimately show "d_exp x = b div 2 ^ 52"
    unfolding d_exp_def u by simp
  have "s * 2 ^ 63 = (s * 2 ^ 11) * 2 ^ 52" by simp
  then have "(s * 2 ^ 63 + b) mod 2 ^ 52 = b mod 2 ^ 52"
    by (metis mod_mult_self3)
  then show "d_frac x = b mod 2 ^ 52"
    unfolding d_frac_def u by simp
qed

lemma unpack64:
  assumes "s < 2" and "b < 2 ^ 63"
  shows "d_sign (of_nat (s * 2 ^ 63 + b)) = s"
    and "d_exp (of_nat (s * 2 ^ 63 + b)) = b div 2 ^ 52"
    and "d_frac (of_nat (s * 2 ^ 63 + b)) = b mod 2 ^ 52"
proof -
  have "s * 2 ^ 63 + b < 2 ^ 64" using assms by simp
  then have u: "unat (of_nat (s * 2 ^ 63 + b) :: 64 word) = s * 2 ^ 63 + b"
    by (rule unat_of_nat64)
  from fields64 [OF u assms]
  show "d_sign (of_nat (s * 2 ^ 63 + b)) = s"
    and "d_exp (of_nat (s * 2 ^ 63 + b)) = b div 2 ^ 52"
    and "d_frac (of_nat (s * 2 ^ 63 + b)) = b mod 2 ^ 52"
    by blast+
qed

text \<open>
  Rounding a 53-bit significand to 24 bits: the result has 24 bits, or is \<open>2 ^ 24\<close>
  when the rounding carries, and it is off by at most half a unit of the 24th bit.
\<close>

lemma round_even_29:
  assumes "2 ^ 52 \<le> m" and "m < 2 ^ 53"
  shows "2 ^ 23 \<le> round_even m 29" and "round_even m 29 \<le> 2 ^ 24"
    and "\<bar>int (round_even m 29 * 2 ^ 29) - int m\<bar> \<le> 2 ^ 28"
    and "m < 2 ^ 53 - 2 ^ 28 \<Longrightarrow> round_even m 29 < 2 ^ 24"
proof -
  define q where "q = m div 2 ^ 29"
  define r where "r = m mod 2 ^ 29"
  have m: "m = q * 2 ^ 29 + r" by (simp add: q_def r_def)
  have r: "r < 2 ^ 29" by (simp add: r_def)
  have q1: "2 ^ 23 \<le> q" using assms(1) m r by simp
  have q2: "q < 2 ^ 24" using assms(2) m by simp
  have re: "round_even m 29 = (if 2 * r > 2 ^ 29 \<or> (2 * r = 2 ^ 29 \<and> odd q) then q + 1 else q)"
    by (simp add: round_even_def Let_def q_def r_def)
  show "2 ^ 23 \<le> round_even m 29" using q1 by (simp add: re)
  show "round_even m 29 \<le> 2 ^ 24" using q2 by (simp add: re)
  show "\<bar>int (round_even m 29 * 2 ^ 29) - int m\<bar> \<le> 2 ^ 28"
  proof (cases "2 * r > 2 ^ 29 \<or> (2 * r = 2 ^ 29 \<and> odd q)")
    case True
    then have "round_even m 29 = q + 1" by (simp add: re)
    moreover from True have "2 ^ 28 \<le> r" by auto
    ultimately show ?thesis using r by (simp add: m)
  next
    case False
    then have "round_even m 29 = q" by (simp add: re)
    moreover from False have "r \<le> 2 ^ 28" by auto
    ultimately show ?thesis by (simp add: m)
  qed
  show "round_even m 29 < 2 ^ 24" if "m < 2 ^ 53 - 2 ^ 28"
  proof (cases "2 * r > 2 ^ 29 \<or> (2 * r = 2 ^ 29 \<and> odd q)")
    case True
    then have "round_even m 29 = q + 1" by (simp add: re)
    moreover from True have "2 ^ 28 \<le> r" by auto
    ultimately show ?thesis using that m by simp
  next
    case False
    then have "round_even m 29 = q" by (simp add: re)
    then show ?thesis using q2 by simp
  qed
qed

lemma div_mod_pack:
  fixes a b c :: nat
  assumes "b < c"
  shows "(a * c + b) div c = a" and "(a * c + b) mod c = b"
  using assms by simp_all

lemma round_trip_normal:
  assumes e1: "897 \<le> d_exp d"
    and e2: "d_exp d \<le> 1149 \<or> (d_exp d = 1150 \<and> d_frac d < 2 ^ 52 - 2 ^ 28)"
  shows "within_tolerance d (float_to_double (double_to_float d))"
proof -
  define s where "s = d_sign d"
  define e where "e = d_exp d"
  define f where "f = d_frac d"
  define m where "m = 2 ^ 52 + f"
  define q where "q = round_even m 29"
  define B where "B = (e - 897) * 2 ^ 23 + q"
  have s: "s < 2" and f: "f < 2 ^ 52"
    unfolding s_def f_def by (rule d_fields_bounds)+
  have m1: "2 ^ 52 \<le> m" and m2: "m < 2 ^ 53" using f by (simp_all add: m_def)
  have e897: "897 \<le> e" using e1 by (simp add: e_def)
  have q1: "2 ^ 23 \<le> q" and q2: "q \<le> 2 ^ 24"
    and qd: "\<bar>int (q * 2 ^ 29) - int m\<bar> \<le> 2 ^ 28"
    unfolding q_def using round_even_29 [OF m1 m2] by blast+
  have qtop: "q < 2 ^ 24" if "e = 1150"
  proof -
    from that e2 have "f < 2 ^ 52 - 2 ^ 28" by (simp add: e_def f_def)
    then have "m < 2 ^ 53 - 2 ^ 28" by (simp add: m_def)
    then show ?thesis unfolding q_def using round_even_29(4) [OF m1 m2] by blast
  qed
  have e1150: "e \<le> 1150" using e2 by (auto simp: e_def)
  have Blt: "B < 0x7F800000"
  proof (cases "e = 1150")
    case True
    with qtop show ?thesis by (simp add: B_def)
  next
    case False
    with e1150 have "e - 897 \<le> 252" by simp
    then have "(e - 897) * 2 ^ 23 \<le> 252 * 2 ^ 23" by (rule mult_le_mono1)
    with q2 show ?thesis by (simp add: B_def)
  qed
  have "float_bits e f = B"
    using e897 e1150 Blt by (simp add: float_bits_def B_def q_def m_def)
  then have x: "double_to_float d = of_nat (s * 2 ^ 31 + B)"
    by (simp only: double_to_float_def s_def e_def f_def)
  define fe where "fe = B div 2 ^ 23"
  define fm where "fm = B mod 2 ^ 23"
  have B31: "B < 2 ^ 31" using Blt by simp
  have fx: "f_sign (double_to_float d) = s" "f_exp (double_to_float d) = fe"
      "f_frac (double_to_float d) = fm"
    unfolding x fe_def fm_def using unpack32 [OF s B31] by blast+
  have fields: "(fe = e - 896 \<and> fm + 2 ^ 23 = q) \<or> (fe = e - 895 \<and> fm = 0 \<and> q = 2 ^ 24)"
  proof (cases "q = 2 ^ 24")
    case True
    then have "B = (e - 895) * 2 ^ 23" using e897 by (simp add: B_def algebra_simps)
    then show ?thesis using True by (simp add: fe_def fm_def)
  next
    case False
    with q2 have q3: "q < 2 ^ 24" by simp
    define t where "t = q - 2 ^ 23"
    have t: "q = 2 ^ 23 + t" "t < 2 ^ 23"
      using q1 q3 by (simp_all add: t_def)
    have "B = (e - 896) * 2 ^ 23 + t" using e897 t by (simp add: B_def algebra_simps)
    then show ?thesis using t by (simp add: fe_def fm_def)
  qed
  have ne: "e \<le> 1149" if "q = 2 ^ 24"
  proof (rule ccontr)
    assume "\<not> e \<le> 1149"
    with e1150 have "e = 1150" by simp
    with qtop that show False by simp
  qed
  have fm: "fm < 2 ^ 23" by (simp add: fm_def)
  from fields have "1 \<le> fe \<and> fe \<le> 254"
  proof
    assume "fe = e - 896 \<and> fm + 2 ^ 23 = q"
    with e897 e1150 show ?thesis by arith
  next
    assume a: "fe = e - 895 \<and> fm = 0 \<and> q = 2 ^ 24"
    with ne have "e \<le> 1149" by simp
    with a e897 show ?thesis by arith
  qed
  then have fe1: "1 \<le> fe" and fe2: "fe \<le> 254" by simp_all
  define B2 where "B2 = (fe + 896) * 2 ^ 52 + fm * 2 ^ 29"
  have "double_bits fe fm = B2"
    using fe1 fe2 by (simp add: double_bits_def B2_def)
  then have w: "float_to_double (double_to_float d) = of_nat (s * 2 ^ 63 + B2)"
    by (simp only: float_to_double_def fx)
  have "fm * 2 ^ 29 < 2 ^ 52" using fm by simp
  moreover have "(fe + 896) * 2 ^ 52 \<le> 1150 * 2 ^ 52"
    using fe2 by (intro mult_le_mono1) simp
  ultimately have B263: "B2 < 2 ^ 63" by (simp add: B2_def)
  have "B2 div 2 ^ 52 = fe + 896" and "B2 mod 2 ^ 52 = fm * 2 ^ 29"
    unfolding B2_def using \<open>fm * 2 ^ 29 < 2 ^ 52\<close> by (rule div_mod_pack)+
  then have wx: "d_sign (float_to_double (double_to_float d)) = s"
      "d_exp (float_to_double (double_to_float d)) = fe + 896"
      "d_frac (float_to_double (double_to_float d)) = fm * 2 ^ 29"
    unfolding w using unpack64 [OF s B263] by simp_all
  define P :: nat where "P = 2 ^ (e - 1)"
  have magv: "d_mag d = m * P"
    using e897 by (simp add: d_mag_def m_def P_def e_def f_def)
  have magw: "d_mag (float_to_double (double_to_float d)) = q * 2 ^ 29 * P"
  proof -
    have "d_mag (float_to_double (double_to_float d)) = (2 ^ 52 + fm * 2 ^ 29) * 2 ^ (fe + 895)"
      by (simp add: d_mag_def wx)
    also have "\<dots> = q * 2 ^ 29 * P"
      using fields
    proof
      assume a: "fe = e - 896 \<and> fm + 2 ^ 23 = q"
      then have "fe + 895 = e - 1" using e897 by simp
      moreover from a have "2 ^ 52 + fm * 2 ^ 29 = q * 2 ^ 29" by auto
      ultimately show ?thesis by (simp add: P_def)
    next
      assume a: "fe = e - 895 \<and> fm = 0 \<and> q = 2 ^ 24"
      then have "fe + 895 = Suc (e - 1)" using e897 by simp
      then have "(2::nat) ^ (fe + 895) = 2 ^ Suc (e - 1)" by (simp only:)
      then have "(2::nat) ^ (fe + 895) = 2 * P" by (simp only: power_Suc P_def)
      with a show ?thesis by simp
    qed
    finally show ?thesis .
  qed
  have fin: "d_finite d" "d_finite (float_to_double (double_to_float d))"
    using e1150 fe2 by (simp_all add: d_finite_def wx e_def [symmetric])
  have diff: "\<bar>d_val (float_to_double (double_to_float d)) - d_val d\<bar>
      = \<bar>int (q * 2 ^ 29) - int m\<bar> * int P"
  proof -
    have "int (q * 2 ^ 29 * P) - int (m * P) = (int (q * 2 ^ 29) - int m) * int P"
      by (simp add: algebra_simps)
    then have "\<bar>int (q * 2 ^ 29 * P) - int (m * P)\<bar> = \<bar>int (q * 2 ^ 29) - int m\<bar> * int P"
      by (simp add: abs_mult)
    then show ?thesis
      by (auto simp: d_val_def wx s_def [symmetric] magv magw)
  qed
  have "2 ^ 24 * (\<bar>int (q * 2 ^ 29) - int m\<bar> * int P) \<le> 2 ^ 24 * (2 ^ 28 * int P)"
    using qd by (intro mult_left_mono mult_right_mono) simp_all
  also have "\<dots> = 2 ^ 52 * int P" by simp
  also have "\<dots> \<le> int m * int P"
    using m1 by (intro mult_right_mono) simp_all
  also have "\<dots> = \<bar>d_val d\<bar>" by (simp add: d_val_def magv)
  finally show ?thesis
    using fin by (simp add: within_tolerance_def diff)
qed

lemma round_trip_zero:
  assumes "d_exp d = 0" and "d_frac d = 0"
  shows "within_tolerance d (float_to_double (double_to_float d))"
proof -
  have s: "d_sign d < 2" by (rule d_fields_bounds)
  have "float_bits 0 0 = 0" by (simp add: float_bits_def round_even_def)
  then have x: "double_to_float d = of_nat (d_sign d * 2 ^ 31 + 0)"
    by (simp only: double_to_float_def assms)
  have fx: "f_sign (double_to_float d) = d_sign d" "f_exp (double_to_float d) = 0"
      "f_frac (double_to_float d) = 0"
    unfolding x using unpack32 [OF s, of 0] by simp_all
  have "double_bits 0 0 = 0" by (simp add: double_bits_def)
  then have w: "float_to_double (double_to_float d) = of_nat (d_sign d * 2 ^ 63 + 0)"
    by (simp only: float_to_double_def fx)
  have wx: "d_exp (float_to_double (double_to_float d)) = 0"
      "d_frac (float_to_double (double_to_float d)) = 0"
    unfolding w using unpack64 [OF s, of 0] by simp_all
  show ?thesis
    using assms by (simp add: within_tolerance_def d_finite_def d_val_def d_mag_def wx)
qed

lemma round_trip_in_range:
  "in_float_range d \<Longrightarrow> within_tolerance d (float_to_double (double_to_float d))"
  unfolding in_float_range_def using round_trip_zero round_trip_normal by blast


text \<open>The two conversions on the values of the scenarios.\<close>

lemmas cast_defs = double_to_float_def float_to_double_def float_bits_def double_bits_def
  round_even_def d_sign_def d_exp_def d_frac_def f_sign_def f_exp_def f_frac_def

lemma double_to_float_scenario:
  "map double_to_float scenario_commands = angles_list scenario_angles"
  by (simp add: scenario_commands_def scenario_angles_def angles_list_def cast_defs)

lemma float_to_double_scenario:
  "map float_to_double (angles_list scenario_angles) = scenario_states"
  by (simp add: scenario_states_def scenario_angles_def angles_list_def cast_defs)

lemma double_to_float_huge:
  "map double_to_float huge_commands = angles_list huge_angles"
  by (simp add: huge_commands_def huge_angles_def angles_list_def cast_defs)

lemma float_to_double_huge:
  "map float_to_double (angles_list huge_angles) = huge_states"
  by (simp add: huge_states_def huge_angles_def angles_list_def cast_defs)

lemma in_float_range_scenario: "list_all in_float_range scenario_commands"
  by (simp add: scenario_commands_def in_float_range_def d_exp_def d_frac_def)

text \<open>
  Below the normal range of \<^verbatim>\<open>float\<close> the bound does not hold: the double 1e-45 comes
  back as \<open>2 ^ -149\<close>, the smallest positive \<^verbatim>\<open>float\<close>, which is 40 per cent more.
\<close>

lemma round_trip_tiny:
  "double_to_float 0x3696D601AD376AB9 = 0x00000001"
  "float_to_double 0x00000001 = 0x36A0000000000000"
  "\<not> within_tolerance 0x3696D601AD376AB9 0x36A0000000000000"
  by (simp_all add: cast_defs bitlen.simps within_tolerance_def d_finite_def d_val_def
      d_mag_def)

text \<open>The two loops, one after the other, on six slots.\<close>

lemma six_slots:
  assumes "length v = 6"
  shows "v = [v ! 0, v ! 1, v ! 2, v ! 3, v ! 4, v ! 5]"
proof (rule nth_equalityI)
  show "length v = length [v ! 0, v ! 1, v ! 2, v ! 3, v ! 4, v ! 5]"
    using assms by simp
next
  fix i
  assume "i < length v"
  with assms consider "i = 0" | "i = 1" | "i = 2" | "i = 3" | "i = 4" | "i = 5"
    by linarith
  then show "v ! i = [v ! 0, v ! 1, v ! 2, v ! 3, v ! 4, v ! 5] ! i"
    by cases simp_all
qed

lemma six_slots_ex:
  assumes "length v = 6"
  shows "\<exists>c1 c2 c3 c4 c5 c6. v = [c1, c2, c3, c4, c5, c6]"
  using six_slots [OF assms] by blast

lemma write_loop_angles_list:
  assumes "length v = 6"
  shows "\<exists>a. write_loop cf v 6 0 a0 = Returns a \<and> angles_list a = map cf v"
proof -
  from six_slots_ex [OF assms]
  obtain c1 c2 c3 c4 c5 c6 where v: "v = [c1, c2, c3, c4, c5, c6]" by blast
  show ?thesis
    unfolding v write_loop_six by (simp add: angles_list_def)
qed

lemma read_loop_six:
  assumes "length st = 6"
  shows "read_loop cd a 6 0 st = Returns (map cd (angles_list a))"
  using read_loop_result [of 6 st 0 cd a] assms by (simp add: length_angles_list)

lemma round_trip_loops:
  assumes "length v = 6" and "length st = 6"
  shows "\<exists>a. write_loop cf v 6 0 a0 = Returns a
       \<and> read_loop cd a 6 0 st = Returns (map (\<lambda>d. cd (cf d)) v)"
proof -
  from write_loop_angles_list [OF assms(1)]
  obtain a where a: "write_loop cf v 6 0 a0 = Returns a" "angles_list a = map cf v"
    by blast
  have "read_loop cd a 6 0 st = Returns (map cd (angles_list a))"
    using assms(2) by (rule read_loop_six)
  with a show ?thesis by (auto simp: comp_def)
qed

lemma write_loop_double_to_float_scenario:
  "write_loop double_to_float scenario_commands 6 0 zero_angles = Returns scenario_angles"
proof -
  have "write_loop double_to_float scenario_commands 6 0 zero_angles
      = Returns \<lparr>Actuator1 = 0x3DCCCCCD, Actuator2 = 0x3E4CCCCD, Actuator3 = 0x3E99999A,
          Actuator4 = 0x3ECCCCCD, Actuator5 = 0x3F000000, Actuator6 = 0x3F19999A\<rparr>"
    unfolding scenario_commands_six write_loop_six by (simp add: cast_defs)
  then show ?thesis by (simp add: scenario_angles_def)
qed

lemma write_loop_double_to_float_huge:
  "write_loop double_to_float huge_commands 6 0 zero_angles = Returns huge_angles"
proof -
  have "write_loop double_to_float huge_commands 6 0 zero_angles
      = Returns \<lparr>Actuator1 = 0x7F800000, Actuator2 = 0x7FC00000, Actuator3 = 0x3E99999A,
          Actuator4 = 0x3ECCCCCD, Actuator5 = 0x3F000000, Actuator6 = 0x3F19999A\<rparr>"
    unfolding huge_commands_def write_loop_six by (simp add: cast_defs)
  then show ?thesis by (simp add: huge_angles_def)
qed

text \<open>
  C7, as the claim states it, fails: not every \<^verbatim>\<open>double\<close> comes back within
  tolerance. With 1e300 and the quiet NaN in the first two slots of the Command
  Buffer, the loop of \<^verbatim>\<open>write\<close> makes them the infinity and a NaN of \<^verbatim>\<open>float\<close>, and
  the loop of \<^verbatim>\<open>read\<close> the infinity and a NaN of \<^verbatim>\<open>double\<close>: neither is within any
  tolerance of what was sent.
\<close>

theorem round_trip_counterexample:
  "length huge_commands = 6
   \<and> write_loop double_to_float huge_commands 6 0 zero_angles = Returns huge_angles
   \<and> read_loop float_to_double huge_angles 6 0 (hw_states arm_idle) = Returns huge_states
   \<and> \<not> list_all2 within_tolerance huge_commands huge_states
   \<and> \<not> within_tolerance (huge_commands ! 0) (huge_states ! 0)
   \<and> \<not> within_tolerance (huge_commands ! 1) (huge_states ! 1)"
proof -
  have r: "read_loop float_to_double huge_angles 6 0 (hw_states arm_idle) = Returns huge_states"
    using read_loop_six [OF arm_idle_facts(5), of float_to_double huge_angles]
    by (simp add: float_to_double_huge)
  have n: "\<not> within_tolerance 0x7E37E43C8800759C 0x7FF0000000000000"
    "\<not> within_tolerance 0x7FF8000000000000 0x7FF8000000000000"
    by (simp_all add: within_tolerance_def d_finite_def d_exp_def)
  then have "\<not> list_all2 within_tolerance huge_commands huge_states"
    by (simp add: huge_commands_def huge_states_def)
  with r n write_loop_double_to_float_huge show ?thesis
    by (simp add: huge_commands_def huge_states_def)
qed

text \<open>
  C7, amended. For every six-slot sequence \<open>v\<close> of doubles each of which is zero or
  has a magnitude of at least \<open>2 ^ -126\<close> and less than \<open>(2 - 2 ^ -24) * 2 ^ 127\<close>
  (the finite values that round to a zero or a normal \<^verbatim>\<open>float\<close>), the loop of \<^verbatim>\<open>write\<close>
  with the conversion to \<^verbatim>\<open>float\<close> followed by the loop of \<^verbatim>\<open>read\<close> with the
  conversion to \<^verbatim>\<open>double\<close> gives, in slot order, a sequence of six doubles each of
  which differs from the slot of \<open>v\<close> by at most \<open>2 ^ -24\<close> of its magnitude:
  equality within the rounding of single precision, not exact equality.
\<close>

theorem round_trip_within_tolerance:
  assumes "length v = 6" and "list_all in_float_range v" and "length st = 6"
  shows "\<exists>a w. write_loop double_to_float v 6 0 a0 = Returns a
       \<and> read_loop float_to_double a 6 0 st = Returns w
       \<and> w = map (\<lambda>d. float_to_double (double_to_float d)) v
       \<and> length w = 6 \<and> list_all2 within_tolerance v w"
proof -
  let ?w = "map (\<lambda>d. float_to_double (double_to_float d)) v"
  from round_trip_loops [OF assms(1,3)]
  obtain a where a: "write_loop double_to_float v 6 0 a0 = Returns a"
    "read_loop float_to_double a 6 0 st = Returns ?w"
    by blast
  have "list_all2 within_tolerance v ?w"
    using assms(2) by (simp add: list_all2_conv_all_nth list_all_length round_trip_in_range)
  with a assms(1) show ?thesis by simp
qed

theorem round_trip_within_tolerance_witness:
  "length scenario_commands = 6 \<and> list_all in_float_range scenario_commands
   \<and> length (hw_states arm_idle) = 6
   \<and> write_loop double_to_float scenario_commands 6 0 zero_angles = Returns scenario_angles
   \<and> read_loop float_to_double scenario_angles 6 0 (hw_states arm_idle)
       = Returns scenario_states
   \<and> list_all2 within_tolerance scenario_commands scenario_states
   \<and> scenario_states \<noteq> scenario_commands"
proof -
  from round_trip_within_tolerance [OF length_scenario_commands in_float_range_scenario
      arm_idle_facts(5), of zero_angles]
  obtain a w where aw: "write_loop double_to_float scenario_commands 6 0 zero_angles = Returns a"
      "read_loop float_to_double a 6 0 (hw_states arm_idle) = Returns w"
      "list_all2 within_tolerance scenario_commands w"
    by blast
  from aw(1) have a: "a = scenario_angles"
    by (simp add: write_loop_double_to_float_scenario)
  have r: "read_loop float_to_double scenario_angles 6 0 (hw_states arm_idle)
      = Returns scenario_states"
    using read_loop_six [OF arm_idle_facts(5), of float_to_double scenario_angles]
    by (simp add: float_to_double_scenario)
  with aw(2) a have w: "w = scenario_states" by simp
  have ne: "scenario_states \<noteq> scenario_commands"
    by (simp add: scenario_states_def scenario_commands_def)
  from aw(3) w a r ne write_loop_double_to_float_scenario length_scenario_commands
    in_float_range_scenario arm_idle_facts(5)
  show ?thesis by simp
qed

end
